theory Spec2Isabelle
  imports Main "HOL-Library.Word" "HOL-Library.Char_ord" "HOL-Library.Sublist"
begin

section \<open>Unified statistics reporting (lib/Basic/Statistic.cpp)\<close>

subsection \<open>File-name helpers\<close>

text \<open>
  \<open>cleanName\<close> walks the bytes of its argument and keeps a byte when it lies in one of the
  ranges \<open>a..z\<close>, \<open>A..Z\<close>, \<open>0..9\<close> or is the dot; every other byte becomes an underscore.
  The comparisons are on character codes. (With a signed \<open>char\<close> the bytes above 127 are
  negative and fail every range test; with the unsigned order used here they fail the upper
  bounds. Either way they are replaced.)
\<close>

definition cleanName_step :: "char \<Rightarrow> string \<Rightarrow> string" where
  "cleanName_step c tmp =
     (if (CHR ''a'' \<le> c \<and> c \<le> CHR ''z'') \<or>
         (CHR ''A'' \<le> c \<and> c \<le> CHR ''Z'') \<or>
         (CHR ''0'' \<le> c \<and> c \<le> CHR ''9'') \<or>
         (c = CHR ''.'')
      then tmp @ [c]
      else tmp @ [CHR ''_''])"

definition cleanName :: "string \<Rightarrow> string" where
  "cleanName n = fold cleanName_step n []"

text \<open>The character class \<open>[A-Za-z0-9.]\<close> of the specification, written out.\<close>

definition allowed_chars :: "char set" where
  "allowed_chars =
     set (''ABCDEFGHIJKLMNOPQRSTUVWXYZ'' @ ''abcdefghijklmnopqrstuvwxyz'' @ ''0123456789'' @ ''.'')"


subsection \<open>Decimal output\<close>

text \<open>
  The streams print unsigned integers in decimal (\<open>OS << n\<close>).
\<close>

fun decimal :: "nat \<Rightarrow> string" where
  "decimal n =
     (if n < 10 then [char_of (48 + n)]
      else decimal (n div 10) @ [char_of (48 + n mod 10)])"

declare decimal.simps [simp del]

definition quote :: string where
  "quote = [CHR 0x27]"

definition dquote :: string where
  "dquote = [CHR 0x22]"

definition newline :: string where
  "newline = [CHR 0x0A]"

definition tab :: string where
  "tab = [CHR 0x09]"

text \<open>
  \<open>makeFileName\<close> reads the system clock and the process random-number source; the two
  values read are arguments here.
\<close>

definition makeFileName :: "nat \<Rightarrow> nat \<Rightarrow> string \<Rightarrow> string \<Rightarrow> string \<Rightarrow> string \<Rightarrow> string" where
  "makeFileName usec rnd Prefix ProgramName AuxName Suffix =
     Prefix @ ''-'' @ decimal usec @ ''-'' @ ProgramName @ ''-'' @ AuxName
       @ ''-'' @ decimal rnd @ ''.'' @ Suffix"

definition makeStatsFileName :: "nat \<Rightarrow> nat \<Rightarrow> string \<Rightarrow> string \<Rightarrow> string" where
  "makeStatsFileName usec rnd ProgramName AuxName =
     makeFileName usec rnd ''stats'' ProgramName AuxName ''json''"

definition makeTraceFileName :: "nat \<Rightarrow> nat \<Rightarrow> string \<Rightarrow> string \<Rightarrow> string" where
  "makeTraceFileName usec rnd ProgramName AuxName =
     makeFileName usec rnd ''trace'' ProgramName AuxName ''csv''"

subsection \<open>Build configuration and the table of counters\<close>

text \<open>
  The file is compiled differently with and without \<open>NDEBUG\<close> and \<open>LLVM_ENABLE_STATS\<close>:
  \<open>assert\<close> is checked only without \<open>NDEBUG\<close>, and the destructor chooses its printing
  routine by both macros.
\<close>

record build =
  NDEBUG :: bool
  LLVM_ENABLE_STATS :: bool

text \<open>
  \<open>swift/Basic/Statistics.def\<close> is included several times with different macro
  definitions. It is a table: one \<open>FRONTEND_STATISTIC(TY, NAME)\<close> line for each frontend
  counter and one \<open>DRIVER_STATISTIC(NAME)\<close> line for each driver counter. The table is a
  parameter of the model. Each \<open>NAME\<close> is a field of the counter structure.
\<close>

record statistics_def =
  FRONTEND_STATISTIC :: "(string \<times> string) list"
  DRIVER_STATISTIC :: "string list"

text \<open>
  A counter structure (\<open>AlwaysOnFrontendCounters\<close>, \<open>AlwaysOnDriverCounters\<close>) has one
  unsigned field of the width of \<open>size_t\<close> for each \<open>NAME\<close>; it is read and written by
  field name. \<open>make_unique\<close> value-initialises it: every field is zero.
\<close>

type_synonym 'w counters = "string \<Rightarrow> 'w word"

definition zero_counters :: "'w::len counters" where
  "zero_counters = (\<lambda>NAME. 0)"

definition EXIT_SUCCESS :: int where
  "EXIT_SUCCESS = 0"

definition EXIT_FAILURE :: int where
  "EXIT_FAILURE = 1"

subsection \<open>Data of the reporter\<close>

text \<open>
  The process time of a \<open>TimeRecord\<close> is a floating-point number of seconds. The code uses
  it only through \<open>uint64_t(1000000.0 * getProcessTime())\<close>; the record carries that value.
  A default-constructed \<open>TimeRecord\<close> is zero.
\<close>

record TimeRecord =
  ProcessTimeUS :: "64 word"

text \<open>
  \<open>TraceEntity\<close> is a pointer union over the four kinds of host objects; the pointers are
  opaque identifiers here.
\<close>

datatype TraceEntity =
    NullEntity
  | SwiftDecl nat
  | SwiftExpr nat
  | ClangDecl nat
  | SILFunction nat

text \<open>
  The records below are parametric in the type \<open>'c\<close> of a counter value; every function
  of the model uses them at \<open>'c = 'w word\<close>, the unsigned integers of the width of
  \<open>size_t\<close>.
\<close>

record 'c FrontendStatsEvent =
  TimeUSec :: "64 word"
  LiveUSec :: "64 word"
  IsEntry :: bool
  EventName :: string
  CounterName :: string
  CounterDelta :: 'c
  CounterValue :: 'c
  Entity :: TraceEntity

text \<open>
  The model has one reporter, so a \<open>UnifiedStatsReporter *\<close> is either null or points to
  it.
\<close>

datatype reporter_ptr = nullptr | this_reporter

record FrontendStatsTracer =
  Reporter :: reporter_ptr
  SavedTime :: TimeRecord
  TracerEventName :: string
  TracerEntity :: TraceEntity

datatype SourceManager = SourceManager nat

datatype ClangSourceManager = ClangSourceManager nat

datatype NamedRegionTimer = NamedRegionTimer string string string string

record 'c UnifiedStatsReporter =
  currentProcessExitStatusSet :: bool
  currentProcessExitStatus :: int
  StatsFilename :: string
  TraceFilename :: string
  StartedTime :: TimeRecord
  Timer :: "NamedRegionTimer option"
  SourceMgr :: "SourceManager option"
  ClangSourceMgr :: "ClangSourceManager option"
  DriverCounters :: "(string \<Rightarrow> 'c) option"
  FrontendCounters :: "(string \<Rightarrow> 'c) option"
  LastTracedFrontendCounters :: "(string \<Rightarrow> 'c) option"
  FrontendStatsEvents :: "'c FrontendStatsEvent list"


subsection \<open>Construction and the lazily allocated counter domains\<close>

text \<open>
  \<open>llvm::sys::path::append\<close> belongs to LLVM; here it joins a directory and a file name
  with one separator.
\<close>

definition path_append :: "string \<Rightarrow> string \<Rightarrow> string" where
  "path_append Directory name =
     (if Directory = [] then name
      else if last Directory = CHR ''/'' then Directory @ name
      else Directory @ ''/'' @ name)"

text \<open>
  The constructor reads the clock for \<open>StartedTime\<close>, and reads the clock and the random
  source once for each of the two file names.
\<close>

definition UnifiedStatsReporter_ctor ::
  "string \<Rightarrow> string \<Rightarrow> string \<Rightarrow> SourceManager option \<Rightarrow> ClangSourceManager option \<Rightarrow> bool
     \<Rightarrow> TimeRecord \<Rightarrow> nat \<times> nat \<Rightarrow> nat \<times> nat \<Rightarrow> ('w::len) word UnifiedStatsReporter" where
  "UnifiedStatsReporter_ctor ProgramName AuxName Directory SM CSM TraceEvents now clock1 clock2 =
     \<lparr> currentProcessExitStatusSet = False,
       currentProcessExitStatus = EXIT_FAILURE,
       StatsFilename =
         path_append Directory (makeStatsFileName (fst clock1) (snd clock1) ProgramName AuxName),
       TraceFilename =
         path_append Directory (makeTraceFileName (fst clock2) (snd clock2) ProgramName AuxName),
       StartedTime = now,
       Timer = Some (NamedRegionTimer AuxName ''Building Target'' ProgramName ''Running Program''),
       SourceMgr = SM,
       ClangSourceMgr = CSM,
       DriverCounters = None,
       FrontendCounters = None,
       LastTracedFrontendCounters = (if TraceEvents then Some zero_counters else None),
       FrontendStatsEvents = [] \<rparr>"

text \<open>
  The accessors return a reference to the domain, allocating it on first use. The model
  returns the counters read through the reference together with the reporter, which holds
  the domain from then on. A write through the reference changes the domain that the
  reporter holds (\<open>map_option\<close> on the field): it never allocates one.
\<close>

definition getDriverCounters ::
  "('w::len) word UnifiedStatsReporter \<Rightarrow> 'w counters \<times> 'w word UnifiedStatsReporter" where
  "getDriverCounters r =
     (case DriverCounters r of
        None \<Rightarrow> (zero_counters, r\<lparr>DriverCounters := Some zero_counters\<rparr>)
      | Some C \<Rightarrow> (C, r))"

definition getFrontendCounters ::
  "('w::len) word UnifiedStatsReporter \<Rightarrow> 'w counters \<times> 'w word UnifiedStatsReporter" where
  "getFrontendCounters r =
     (case FrontendCounters r of
        None \<Rightarrow> (zero_counters, r\<lparr>FrontendCounters := Some zero_counters\<rparr>)
      | Some C \<Rightarrow> (C, r))"

text \<open>
  \<open>assert\<close> aborts the process when its condition is false, in a build without \<open>NDEBUG\<close>;
  with \<open>NDEBUG\<close> it expands to nothing.
\<close>

datatype failure = DoubleExitStatus

definition noteCurrentProcessExitStatus ::
  "build \<Rightarrow> int \<Rightarrow> 'c UnifiedStatsReporter \<Rightarrow> failure + 'c UnifiedStatsReporter" where
  "noteCurrentProcessExitStatus cfg status r =
     (if \<not> NDEBUG cfg \<and> \<not> (\<not> currentProcessExitStatusSet r) then Inl DoubleExitStatus
      else Inr (r\<lparr>currentProcessExitStatusSet := True, currentProcessExitStatus := status\<rparr>))"

subsection \<open>Tracing\<close>

text \<open>
  One expansion of the macro in \<open>saveAnyFrontendStatsEvents\<close>: the body run for the counter
  \<open>NAME\<close> of type tag \<open>TY\<close>. \<open>C\<close> is the frontend domain; the baseline and the event
  list are updated.
\<close>

definition trace_counter ::
  "64 word \<Rightarrow> 64 word \<Rightarrow> bool \<Rightarrow> FrontendStatsTracer \<Rightarrow> ('w::len) counters \<Rightarrow> string \<times> string
     \<Rightarrow> 'w counters \<times> 'w word FrontendStatsEvent list
     \<Rightarrow> 'w counters \<times> 'w word FrontendStatsEvent list" where
  "trace_counter NowUS LiveUS isEntry T C = (\<lambda>(TY, NAME) (Last, Events).
     (let total = C NAME;
          delta = C NAME - Last NAME;
          name = TY @ ''.'' @ NAME
      in if delta \<noteq> 0
         then (Last(NAME := C NAME),
               Events @ [\<lparr> TimeUSec = NowUS, LiveUSec = LiveUS, IsEntry = isEntry,
                            EventName = TracerEventName T, CounterName = name,
                            CounterDelta = delta, CounterValue = total,
                            Entity = TracerEntity T \<rparr>])
         else (Last, Events)))"

definition saveAnyFrontendStatsEvents ::
  "statistics_def \<Rightarrow> FrontendStatsTracer \<Rightarrow> bool \<Rightarrow> TimeRecord
     \<Rightarrow> ('w::len) word UnifiedStatsReporter \<Rightarrow> 'w word UnifiedStatsReporter" where
  "saveAnyFrontendStatsEvents defs T isEntry Now r =
     (case LastTracedFrontendCounters r of
        None \<Rightarrow> r
      | Some Last \<Rightarrow>
          (let StartUS = ProcessTimeUS (SavedTime T);
               NowUS = ProcessTimeUS Now;
               LiveUS = (if isEntry then 0 else NowUS - StartUS);
               (C, r1) = getFrontendCounters r;
               (Last', Events') =
                  fold (trace_counter NowUS LiveUS isEntry T C) (FRONTEND_STATISTIC defs)
                    (Last, FrontendStatsEvents r1)
           in r1\<lparr>LastTracedFrontendCounters := Some Last', FrontendStatsEvents := Events'\<rparr>))"

text \<open>
  The tracer's constructor reads the clock for \<open>SavedTime\<close>; the flush it calls reads the
  clock again.
\<close>

definition FrontendStatsTracer_ctor ::
  "statistics_def \<Rightarrow> string \<Rightarrow> TraceEntity \<Rightarrow> reporter_ptr \<Rightarrow> TimeRecord \<Rightarrow> TimeRecord
     \<Rightarrow> ('w::len) word UnifiedStatsReporter \<Rightarrow> FrontendStatsTracer \<times> 'w word UnifiedStatsReporter" where
  "FrontendStatsTracer_ctor defs name E R saved Now r =
     (let T = \<lparr> Reporter = R, SavedTime = saved, TracerEventName = name, TracerEntity = E \<rparr>
      in if R \<noteq> nullptr then (T, saveAnyFrontendStatsEvents defs T True Now r) else (T, r))"

definition FrontendStatsTracer_default :: FrontendStatsTracer where
  "FrontendStatsTracer_default =
     \<lparr> Reporter = nullptr, SavedTime = \<lparr>ProcessTimeUS = 0\<rparr>, TracerEventName = [],
       TracerEntity = NullEntity \<rparr>"

text \<open>
  Move assignment works on two existing tracers, which may be one and the same object
  (\<open>t = std::move(t)\<close>). The tracers live in a store, \<open>this\<close> and \<open>other\<close> are their
  addresses, and each statement of the operator is one update of the store, in the order
  of the source; every read of \<open>other\<close> sees the updates made before it.
\<close>

type_synonym tracer_store = "nat \<Rightarrow> FrontendStatsTracer"

definition FrontendStatsTracer_move_assign :: "nat \<Rightarrow> nat \<Rightarrow> tracer_store \<Rightarrow> tracer_store" where
  "FrontendStatsTracer_move_assign this other H =
     (let H1 = H(this := (H this)\<lparr>Reporter := Reporter (H other)\<rparr>);
          H2 = H1(this := (H1 this)\<lparr>SavedTime := SavedTime (H1 other)\<rparr>);
          H3 = H2(this := (H2 this)\<lparr>TracerEventName := TracerEventName (H2 other)\<rparr>);
          H4 = H3(this := (H3 this)\<lparr>TracerEntity := TracerEntity (H3 other)\<rparr>)
      in H4(other := (H4 other)\<lparr>Reporter := nullptr\<rparr>))"

text \<open>
  Move construction builds a new object from an existing one, so the two are distinct; the
  result is the new object and the source as it is afterwards.
\<close>

definition FrontendStatsTracer_move_ctor ::
  "FrontendStatsTracer \<Rightarrow> FrontendStatsTracer \<times> FrontendStatsTracer" where
  "FrontendStatsTracer_move_ctor other =
     (\<lparr> Reporter = Reporter other, SavedTime = SavedTime other,
        TracerEventName = TracerEventName other, TracerEntity = TracerEntity other \<rparr>,
      other\<lparr> Reporter := nullptr \<rparr>)"

definition FrontendStatsTracer_dtor ::
  "statistics_def \<Rightarrow> FrontendStatsTracer \<Rightarrow> TimeRecord
     \<Rightarrow> ('w::len) word UnifiedStatsReporter \<Rightarrow> 'w word UnifiedStatsReporter" where
  "FrontendStatsTracer_dtor defs T Now r =
     (if Reporter T \<noteq> nullptr then saveAnyFrontendStatsEvents defs T False Now r else r)"

text \<open>The four overloads of \<open>getStatsTracer\<close> differ only in the kind of entity.\<close>

definition getStatsTracer ::
  "statistics_def \<Rightarrow> string \<Rightarrow> TraceEntity \<Rightarrow> TimeRecord \<Rightarrow> TimeRecord
     \<Rightarrow> ('w::len) word UnifiedStatsReporter \<Rightarrow> FrontendStatsTracer \<times> 'w word UnifiedStatsReporter" where
  "getStatsTracer defs name E saved Now r =
     (if LastTracedFrontendCounters r \<noteq> None
      then FrontendStatsTracer_ctor defs name E this_reporter saved Now r
      else (FrontendStatsTracer_default, r))"


subsection \<open>The host: collaborators outside this file\<close>

text \<open>
  What the destructor obtains from the operating system, LLVM and the compiler's object
  graph is a parameter: whether opening a path fails, the peak memory of child processes,
  the two floating-point facts about the elapsed process time (whether it is zero, and the
  truncated quotient of a line count by it), the text LLVM prints for its timers and for
  its global statistics, and the names and source ranges of traced entities.
\<close>

record ClangLoc =
  isValid :: bool
  isFileID :: bool
  PresumedFilename :: string
  PresumedLine :: nat
  PresumedColumn :: nat

record 'c host =
  open_fails :: "string \<Rightarrow> bool"
  getChildrenMaxResidentSetSize :: 'c
  ElapsedProcessTime_nonzero :: bool
  SourceLinesPerElapsedSecond :: "'c \<Rightarrow> 'c"
  printAllJSONValues :: "string \<Rightarrow> string"
  PrintStatisticsJSON :: "(string \<times> string \<times> 'c) list \<Rightarrow> string"
  path_filename :: "string \<Rightarrow> string"
  NamedDecl_printName :: "nat \<Rightarrow> string option"
  ValueDecl_getFullName :: "nat \<Rightarrow> string option"
  SILFunction_getName :: "nat \<Rightarrow> string"
  ClangDecl_getSourceRange :: "ClangSourceManager \<Rightarrow> nat \<Rightarrow> ClangLoc \<times> ClangLoc"
  Decl_getSourceRange :: "SourceManager \<Rightarrow> nat \<Rightarrow> string"
  Expr_getSourceRange :: "SourceManager \<Rightarrow> nat \<Rightarrow> string"
  SILFunction_getSourceRange :: "SourceManager \<Rightarrow> nat \<Rightarrow> string"

text \<open>
  What the destructor changes outside the reporter: the files written, the paths it tried
  to open (in order), the diagnostic stream \<open>llvm::errs()\<close>, and the additions made to
  LLVM's global statistics (group, name and amount of each \<open>Stat += ...\<close>).
\<close>

record 'c world =
  files :: "string \<rightharpoonup> string"
  opens :: "string list"
  errs :: string
  llvm_statistics :: "(string \<times> string \<times> 'c) list"

text \<open>
  Constructing a \<open>raw_fd_ostream\<close> on a path in append mode: the error code is set when
  the open fails; otherwise the file exists afterwards with its old contents.
\<close>

definition raw_fd_ostream :: "'c host \<Rightarrow> string \<Rightarrow> 'c world \<Rightarrow> bool \<times> 'c world" where
  "raw_fd_ostream h Filename w =
     (if open_fails h Filename then (True, w\<lparr>opens := opens w @ [Filename]\<rparr>)
      else (False, w\<lparr>opens := opens w @ [Filename],
                     files := (files w)(Filename \<mapsto>
                        (case files w Filename of None \<Rightarrow> [] | Some old \<Rightarrow> old))\<rparr>))"

definition stream_write :: "string \<Rightarrow> string \<Rightarrow> 'c world \<Rightarrow> 'c world" where
  "stream_write Filename text w =
     w\<lparr>files := (files w)(Filename \<mapsto>
          (case files w Filename of None \<Rightarrow> [] | Some old \<Rightarrow> old) @ text)\<rparr>"

subsection \<open>Printing the snapshot\<close>

definition publishAlwaysOnStatsToLLVM ::
  "statistics_def \<Rightarrow> ('w::len) word UnifiedStatsReporter \<Rightarrow> 'w word world \<Rightarrow> 'w word world" where
  "publishAlwaysOnStatsToLLVM defs r w =
     (let w1 = (case FrontendCounters r of
                  None \<Rightarrow> w
                | Some C \<Rightarrow>
                    fold (\<lambda>(TY, NAME) w. w\<lparr>llvm_statistics := llvm_statistics w @ [(TY, NAME, C NAME)]\<rparr>)
                      (FRONTEND_STATISTIC defs) w)
      in (case DriverCounters r of
            None \<Rightarrow> w1
          | Some C \<Rightarrow>
              fold (\<lambda>NAME w. w\<lparr>llvm_statistics := llvm_statistics w @ [(''Driver'', NAME, C NAME)]\<rparr>)
                (DRIVER_STATISTIC defs) w1))"

text \<open>
  \<open>printAlwaysOnStatsAndTimers\<close>: the text sent to the stream. The state of each loop is
  the text so far and the current delimiter.
\<close>

definition print_frontend_counter ::
  "('w::len) counters \<Rightarrow> string \<times> string \<Rightarrow> string \<times> string \<Rightarrow> string \<times> string" where
  "print_frontend_counter C = (\<lambda>(TY, NAME) (OS, delim).
     (OS @ delim @ tab @ dquote @ TY @ ''.'' @ NAME @ dquote @ '': '' @ decimal (unat (C NAME)),
      '','' @ newline))"

definition print_driver_counter ::
  "('w::len) counters \<Rightarrow> string \<Rightarrow> string \<times> string \<Rightarrow> string \<times> string" where
  "print_driver_counter C = (\<lambda>NAME (OS, delim).
     (OS @ delim @ tab @ dquote @ ''Driver.'' @ NAME @ dquote @ '': '' @ decimal (unat (C NAME)),
      '','' @ newline))"

definition printAlwaysOnStatsAndTimers ::
  "statistics_def \<Rightarrow> ('w::len) word host \<Rightarrow> 'w word UnifiedStatsReporter \<Rightarrow> string" where
  "printAlwaysOnStatsAndTimers defs h r =
     (let s0 = (''{'' @ newline, []);
          s1 = (case FrontendCounters r of
                  None \<Rightarrow> s0
                | Some C \<Rightarrow> fold (print_frontend_counter C) (FRONTEND_STATISTIC defs) s0);
          s2 = (case DriverCounters r of
                  None \<Rightarrow> s1
                | Some C \<Rightarrow> fold (print_driver_counter C) (DRIVER_STATISTIC defs) s1)
      in fst s2 @ printAllJSONValues h (snd s2) @ newline @ ''}'' @ newline)"

subsection \<open>Printing the trace\<close>

definition printTraceEntityName :: "'c host \<Rightarrow> TraceEntity \<Rightarrow> string" where
  "printTraceEntityName h E =
     (case E of
        ClangDecl CD \<Rightarrow> (case NamedDecl_printName h CD of Some n \<Rightarrow> n | None \<Rightarrow> [])
      | SwiftDecl D \<Rightarrow> (case ValueDecl_getFullName h D of Some n \<Rightarrow> n | None \<Rightarrow> [])
      | SwiftExpr X \<Rightarrow> []
      | SILFunction F \<Rightarrow> SILFunction_getName h F
      | NullEntity \<Rightarrow> [])"

definition printClangShortLoc :: "'c host \<Rightarrow> ClangLoc \<Rightarrow> string" where
  "printClangShortLoc h L =
     (if \<not> isValid L \<or> \<not> isFileID L then []
      else path_filename h (PresumedFilename L)
             @ '':'' @ decimal (PresumedLine L) @ '':'' @ decimal (PresumedColumn L))"

definition printTraceEntityLoc ::
  "'c host \<Rightarrow> SourceManager \<Rightarrow> ClangSourceManager option \<Rightarrow> TraceEntity \<Rightarrow> string" where
  "printTraceEntityLoc h SM CSM E =
     (case E of
        ClangDecl CD \<Rightarrow>
          (case CSM of
             Some csm \<Rightarrow>
               (let Range = ClangDecl_getSourceRange h csm CD
                in printClangShortLoc h (fst Range) @ ''-'' @ printClangShortLoc h (snd Range))
           | None \<Rightarrow> [])
      | SwiftDecl D \<Rightarrow> Decl_getSourceRange h SM D
      | SwiftExpr X \<Rightarrow> Expr_getSourceRange h SM X
      | SILFunction F \<Rightarrow> SILFunction_getSourceRange h SM F
      | NullEntity \<Rightarrow> [])"

definition trace_header :: string where
  "trace_header =
     ''Time,Live,IsEntry,EventName,CounterName,''
       @ ''CounterDelta,CounterValue,EntityName,EntityRange'' @ newline"

definition trace_row ::
  "('w::len) word host \<Rightarrow> SourceManager \<Rightarrow> ClangSourceManager option
     \<Rightarrow> 'w word FrontendStatsEvent \<Rightarrow> string" where
  "trace_row h SM CSM E =
     decimal (unat (TimeUSec E)) @ '','' @ decimal (unat (LiveUSec E)) @ '',''
       @ (if IsEntry E then dquote @ ''entry'' @ dquote @ '','' else dquote @ ''exit'' @ dquote @ '','')
       @ dquote @ EventName E @ dquote @ '',''
       @ dquote @ CounterName E @ dquote @ '',''
       @ decimal (unat (CounterDelta E)) @ '',''
       @ decimal (unat (CounterValue E)) @ '',''
       @ dquote @ printTraceEntityName h (Entity E) @ dquote @ '',''
       @ dquote @ printTraceEntityLoc h SM CSM (Entity E) @ dquote @ newline"

subsection \<open>Teardown\<close>

text \<open>
  The destructor of the reporter, in the order of the source; its steps first. The first
  step marks the process as failing unless a success status was noted: the failure is
  counted in the frontend domain when that domain is allocated, and otherwise in the driver
  domain, which \<open>getDriverCounters\<close> allocates when it is absent.
\<close>

definition mark_failing ::
  "('w::len) word UnifiedStatsReporter \<Rightarrow> 'w word UnifiedStatsReporter" where
  "mark_failing r =
     (if currentProcessExitStatus r \<noteq> EXIT_SUCCESS
      then (if FrontendCounters r \<noteq> None
            then (let (C, r') = getFrontendCounters r
                  in r'\<lparr>FrontendCounters :=
                         map_option (\<lambda>C. C(''NumProcessFailures'' := C ''NumProcessFailures'' + 1))
                           (FrontendCounters r')\<rparr>)
            else (let (C, r') = getDriverCounters r
                  in r'\<lparr>DriverCounters :=
                         map_option (\<lambda>C. C(''NumProcessFailures'' := C ''NumProcessFailures'' + 1))
                           (DriverCounters r')\<rparr>))
      else r)"

definition record_ChildrenMaxRSS ::
  "('w::len) word host \<Rightarrow> 'w word UnifiedStatsReporter \<Rightarrow> 'w word UnifiedStatsReporter" where
  "record_ChildrenMaxRSS h r =
     (if DriverCounters r \<noteq> None
      then (let (C, r') = getDriverCounters r
            in r'\<lparr>DriverCounters :=
                   map_option (\<lambda>C. C(''ChildrenMaxRSS'' := getChildrenMaxResidentSetSize h))
                     (DriverCounters r')\<rparr>)
      else r)"

definition record_NumSourceLinesPerSecond ::
  "('w::len) word host \<Rightarrow> 'w word UnifiedStatsReporter \<Rightarrow> 'w word UnifiedStatsReporter" where
  "record_NumSourceLinesPerSecond h r =
     (if FrontendCounters r \<noteq> None
      then (let (C, r') = getFrontendCounters r
            in if C ''NumSourceLines'' \<noteq> 0 \<and> ElapsedProcessTime_nonzero h
               then r'\<lparr>FrontendCounters :=
                      map_option (\<lambda>C. C(''NumSourceLinesPerSecond'' :=
                                           SourceLinesPerElapsedSecond h (C ''NumSourceLines'')))
                        (FrontendCounters r')\<rparr>
               else r')
      else r)"

text \<open>The snapshot, by the build: through LLVM's statistics, or printed directly.\<close>

definition print_stats ::
  "build \<Rightarrow> statistics_def \<Rightarrow> ('w::len) word host \<Rightarrow> 'w word UnifiedStatsReporter \<Rightarrow> 'w word world
     \<Rightarrow> 'w word world" where
  "print_stats cfg defs h r w =
     (if \<not> NDEBUG cfg \<or> LLVM_ENABLE_STATS cfg
      then (let wp = publishAlwaysOnStatsToLLVM defs r w
            in stream_write (StatsFilename r) (PrintStatisticsJSON h (llvm_statistics wp)) wp)
      else stream_write (StatsFilename r) (printAlwaysOnStatsAndTimers defs h r) w)"

text \<open>The header and one row for each event, in the order of the event list.\<close>

definition print_trace ::
  "('w::len) word host \<Rightarrow> SourceManager \<Rightarrow> 'w word UnifiedStatsReporter \<Rightarrow> 'w word world
     \<Rightarrow> 'w word world" where
  "print_trace h SM r w =
     fold (\<lambda>E. stream_write (TraceFilename r) (trace_row h SM (ClangSourceMgr r) E))
       (FrontendStatsEvents r)
       (stream_write (TraceFilename r) trace_header w)"

text \<open>
  The result is the reporter as it is when the destructor returns, and the world. Each
  \<open>return\<close> of the source ends the destructor there.
\<close>

definition UnifiedStatsReporter_dtor ::
  "build \<Rightarrow> statistics_def \<Rightarrow> ('w::len) word host \<Rightarrow> 'w word UnifiedStatsReporter \<Rightarrow> 'w word world
     \<Rightarrow> 'w word UnifiedStatsReporter \<times> 'w word world" where
  "UnifiedStatsReporter_dtor cfg defs h r w =
     (let r1 = mark_failing r;
          r2 = r1\<lparr>Timer := None\<rparr>;
          r3 = record_ChildrenMaxRSS h r2;
          r4 = record_NumSourceLinesPerSecond h r3;
          (EC, w1) = raw_fd_ostream h (StatsFilename r4) w
      in if EC
         then (r4, w1\<lparr>errs := errs w1 @ ''Error opening -stats-output-dir file '' @ quote
                                  @ TraceFilename r4 @ quote @ '' for writing'' @ newline\<rparr>)
         else
           (let w2 = print_stats cfg defs h r4 w1
            in (case (LastTracedFrontendCounters r4, SourceMgr r4) of
                  (Some Last, Some SM) \<Rightarrow>
                    (let (EC, w3) = raw_fd_ostream h (TraceFilename r4) w2
                     in if EC
                        then (r4, w3\<lparr>errs := errs w3 @ ''Error opening -trace-stats-events file ''
                                        @ quote @ TraceFilename r4 @ quote @ '' for writing''
                                        @ newline\<rparr>)
                        else (r4, print_trace h SM r4 w3))
                | _ \<Rightarrow> (r4, w2))))"

subsection \<open>Vocabulary of the properties\<close>

text \<open>
  The table is well formed when its frontend names are distinct fields and no name
  contains a dot, as C++ identifiers. The name an event carries for a counter is
  \<open>TY.NAME\<close>.
\<close>

definition counter_label :: "string \<times> string \<Rightarrow> string" where
  "counter_label = (\<lambda>(TY, NAME). TY @ ''.'' @ NAME)"

definition wf_statistics :: "statistics_def \<Rightarrow> bool" where
  "wf_statistics defs \<longleftrightarrow>
     distinct (map snd (FRONTEND_STATISTIC defs)) \<and>
     list_all (\<lambda>(TY, NAME). CHR ''.'' \<notin> set NAME) (FRONTEND_STATISTIC defs)"

text \<open>
  The current value of a frontend counter; the domain is allocated with zeros on first
  use.
\<close>

definition current :: "('w::len) word UnifiedStatsReporter \<Rightarrow> 'w counters" where
  "current r = fst (getFrontendCounters r)"

text \<open>The event a flush records for one counter of the table.\<close>

definition flush_event ::
  "FrontendStatsTracer \<Rightarrow> bool \<Rightarrow> TimeRecord \<Rightarrow> ('w::len) counters \<Rightarrow> 'w counters
     \<Rightarrow> string \<times> string \<Rightarrow> 'w word FrontendStatsEvent" where
  "flush_event T isEntry Now C Last = (\<lambda>(TY, NAME).
     \<lparr> TimeUSec = ProcessTimeUS Now,
       LiveUSec = (if isEntry then 0 else ProcessTimeUS Now - ProcessTimeUS (SavedTime T)),
       IsEntry = isEntry, EventName = TracerEventName T, CounterName = TY @ ''.'' @ NAME,
       CounterDelta = C NAME - Last NAME, CounterValue = C NAME, Entity = TracerEntity T \<rparr>)"

text \<open>The baseline of one counter; there is none when tracing is disabled.\<close>

definition baseline :: "('w::len) word UnifiedStatsReporter \<Rightarrow> string \<Rightarrow> 'w word option" where
  "baseline r NAME = (case LastTracedFrontendCounters r of None \<Rightarrow> None | Some Last \<Rightarrow> Some (Last NAME))"

text \<open>The sum of the deltas that a list of events records under one counter name.\<close>

definition recorded_delta :: "string \<Rightarrow> ('w::len) word FrontendStatsEvent list \<Rightarrow> 'w word" where
  "recorded_delta name evs = sum_list (map CounterDelta (filter (\<lambda>E. CounterName E = name) evs))"

text \<open>
  What the owning process does between two points of a run: it writes frontend counters
  through \<open>getFrontendCounters\<close>, and tracers flush.
\<close>

definition setFrontendCounters ::
  "(('w::len) counters \<Rightarrow> 'w counters) \<Rightarrow> 'w word UnifiedStatsReporter \<Rightarrow> 'w word UnifiedStatsReporter" where
  "setFrontendCounters f r =
     (let (C, r') = getFrontendCounters r
      in r'\<lparr>FrontendCounters := map_option f (FrontendCounters r')\<rparr>)"

datatype 'c action =
    Mutate "(string \<Rightarrow> 'c) \<Rightarrow> (string \<Rightarrow> 'c)"
  | Flush FrontendStatsTracer bool TimeRecord

fun run ::
  "statistics_def \<Rightarrow> ('w::len) word action list \<Rightarrow> 'w word UnifiedStatsReporter
     \<Rightarrow> 'w word UnifiedStatsReporter" where
  "run defs [] r = r"
| "run defs (Mutate f # acts) r = run defs acts (setFrontendCounters f r)"
| "run defs (Flush T isEntry Now # acts) r =
     run defs acts (saveAnyFrontendStatsEvents defs T isEntry Now r)"

text \<open>
  One traced scope: the tracer is obtained from the reporter (entry flush, when tracing is
  enabled), the body runs, and the tracer is released (exit flush). The result is the
  reporter after the entry flush, at the end of the body, and after the exit flush.
\<close>

definition traced_scope ::
  "statistics_def \<Rightarrow> string \<Rightarrow> TraceEntity \<Rightarrow> TimeRecord \<Rightarrow> TimeRecord \<Rightarrow> ('w::len) word action list
     \<Rightarrow> TimeRecord \<Rightarrow> 'w word UnifiedStatsReporter
     \<Rightarrow> 'w word UnifiedStatsReporter \<times> 'w word UnifiedStatsReporter \<times> 'w word UnifiedStatsReporter" where
  "traced_scope defs name E saved t1 body t2 r0 =
     (let (S, r1) = getStatsTracer defs name E saved t1 r0;
          r2 = run defs body r1;
          r3 = FrontendStatsTracer_dtor defs S t2 r2
      in (r1, r2, r3))"

text \<open>The events a later state of the reporter holds beyond those of an earlier state.\<close>

definition appended ::
  "'c UnifiedStatsReporter \<Rightarrow> 'c UnifiedStatsReporter \<Rightarrow> 'c FrontendStatsEvent list" where
  "appended r r' = drop (length (FrontendStatsEvents r)) (FrontendStatsEvents r')"

text \<open>Two calls of the exit-status setter in a row; the first failure ends the run.\<close>

definition note_twice ::
  "build \<Rightarrow> int \<Rightarrow> int \<Rightarrow> 'c UnifiedStatsReporter \<Rightarrow> failure + 'c UnifiedStatsReporter" where
  "note_twice cfg s1 s2 r =
     (case noteCurrentProcessExitStatus cfg s1 r of
        Inl e \<Rightarrow> Inl e
      | Inr r1 \<Rightarrow> noteCurrentProcessExitStatus cfg s2 r1)"

text \<open>The failure count of a domain; an unallocated domain counts nothing.\<close>

definition NumProcessFailures :: "('w::len) counters option \<Rightarrow> 'w word" where
  "NumProcessFailures domain = (case domain of None \<Rightarrow> 0 | Some C \<Rightarrow> C ''NumProcessFailures'')"

subsection \<open>A small concrete run\<close>

definition demo_defs :: statistics_def where
  "demo_defs =
     \<lparr> FRONTEND_STATISTIC = [(''AST'', ''NumSourceLines''), (''Frontend'', ''NumProcessFailures'')],
       DRIVER_STATISTIC = [''NumProcessFailures'', ''ChildrenMaxRSS''] \<rparr>"

definition demo_loc :: ClangLoc where
  "demo_loc = \<lparr> isValid = False, isFileID = False, PresumedFilename = [],
                PresumedLine = 0, PresumedColumn = 0 \<rparr>"

definition demo_host :: "64 word host" where
  "demo_host =
     \<lparr> open_fails = (\<lambda>p. False), getChildrenMaxResidentSetSize = 9,
       ElapsedProcessTime_nonzero = True, SourceLinesPerElapsedSecond = (\<lambda>n. n),
       printAllJSONValues = (\<lambda>delim. []), PrintStatisticsJSON = (\<lambda>stats. []),
       path_filename = (\<lambda>p. p), NamedDecl_printName = (\<lambda>d. None),
       ValueDecl_getFullName = (\<lambda>d. None), SILFunction_getName = (\<lambda>f. []),
       ClangDecl_getSourceRange = (\<lambda>csm d. (demo_loc, demo_loc)),
       Decl_getSourceRange = (\<lambda>sm d. []), Expr_getSourceRange = (\<lambda>sm e. []),
       SILFunction_getSourceRange = (\<lambda>sm f. []) \<rparr>"

definition demo_world :: "64 word world" where
  "demo_world = \<lparr> files = Map.empty, opens = [], errs = [], llvm_statistics = [] \<rparr>"

definition demo_time :: "nat \<Rightarrow> TimeRecord" where
  "demo_time us = \<lparr> ProcessTimeUS = of_nat us \<rparr>"

definition demo_reporter :: "bool \<Rightarrow> SourceManager option \<Rightarrow> 64 word UnifiedStatsReporter" where
  "demo_reporter TraceEvents SM =
     UnifiedStatsReporter_ctor ''swiftc'' ''m-all'' ''out'' SM None TraceEvents
       (demo_time 5) (1, 2) (3, 4)"

definition demo_counters :: "64 counters" where
  "demo_counters = zero_counters(''NumSourceLines'' := 100)"

definition demo_running :: "bool \<Rightarrow> SourceManager option \<Rightarrow> 64 word UnifiedStatsReporter" where
  "demo_running TraceEvents SM =
     setFrontendCounters (\<lambda>C. demo_counters) (demo_reporter TraceEvents SM)"

definition demo_tracer :: FrontendStatsTracer where
  "demo_tracer = \<lparr> Reporter = this_reporter, SavedTime = demo_time 6,
                   TracerEventName = ''parse'', TracerEntity = NullEntity \<rparr>"

text \<open>A store with the live tracer at address 0 and a default-constructed one elsewhere.\<close>

definition demo_store :: tracer_store where
  "demo_store = (\<lambda>a. FrontendStatsTracer_default)(0 := demo_tracer)"

definition demo_body :: "64 word action list" where
  "demo_body = [Mutate (\<lambda>C. C(''NumSourceLines'' := 250))]"

definition demo_scope ::
  "SourceManager option \<Rightarrow> 64 word action list \<Rightarrow>
     64 word UnifiedStatsReporter \<times> 64 word UnifiedStatsReporter \<times> 64 word UnifiedStatsReporter" where
  "demo_scope SM body =
     traced_scope demo_defs ''parse'' NullEntity (demo_time 6) (demo_time 6) body (demo_time 16)
       (demo_running True SM)"

text \<open>
  The reporter at the end of a traced run, with and without a source manager; and a host
  on which the stats file of that run cannot be opened.
\<close>

definition demo_traced :: "SourceManager option \<Rightarrow> 64 word UnifiedStatsReporter" where
  "demo_traced SM = snd (snd (demo_scope SM demo_body))"

definition demo_host_stats_fail :: "64 word host" where
  "demo_host_stats_fail = demo_host\<lparr> open_fails := (\<lambda>p. p = ''out/stats-1-swiftc-m-all-2.json'') \<rparr>"

text \<open>An outer and an inner scope; the line counter grows before each of the four flushes.\<close>

definition demo_A :: "FrontendStatsTracer \<times> 64 word UnifiedStatsReporter" where
  "demo_A =
     getStatsTracer demo_defs ''outer'' NullEntity (demo_time 6) (demo_time 6)
       (demo_running True None)"

definition demo_B :: "FrontendStatsTracer \<times> 64 word UnifiedStatsReporter" where
  "demo_B =
     getStatsTracer demo_defs ''inner'' NullEntity (demo_time 7) (demo_time 7)
       (setFrontendCounters (\<lambda>C. C(''NumSourceLines'' := 150)) (snd demo_A))"

definition demo_B_end :: "64 word UnifiedStatsReporter" where
  "demo_B_end =
     FrontendStatsTracer_dtor demo_defs (fst demo_B) (demo_time 8)
       (setFrontendCounters (\<lambda>C. C(''NumSourceLines'' := 175)) (snd demo_B))"

definition demo_A_end :: "64 word UnifiedStatsReporter" where
  "demo_A_end =
     FrontendStatsTracer_dtor demo_defs (fst demo_A) (demo_time 9)
       (setFrontendCounters (\<lambda>C. C(''NumSourceLines'' := 200)) demo_B_end)"

definition release_build :: build where
  "release_build = \<lparr> NDEBUG = True, LLVM_ENABLE_STATS = False \<rparr>"

definition debug_build :: build where
  "debug_build = \<lparr> NDEBUG = False, LLVM_ENABLE_STATS = False \<rparr>"

section \<open>Properties\<close>

subsection \<open>Sanitising names\<close>

lemma cleanName_range_allowed:
  "((CHR ''a'' \<le> c \<and> c \<le> CHR ''z'') \<or> (CHR ''A'' \<le> c \<and> c \<le> CHR ''Z'') \<or>
    (CHR ''0'' \<le> c \<and> c \<le> CHR ''9'') \<or> (c = CHR ''.'')) \<longleftrightarrow> c \<in> allowed_chars"
  unfolding allowed_chars_def less_eq_char_def
  by (cases c) simp

lemma cleanName_fold:
  "fold cleanName_step n acc = acc @ map (\<lambda>c. if c \<in> allowed_chars then c else CHR ''_'') n"
  by (induction n arbitrary: acc) (simp_all add: cleanName_step_def cleanName_range_allowed)

lemma cleanName_map:
  "cleanName n = map (\<lambda>c. if c \<in> allowed_chars then c else CHR ''_'') n"
  by (simp add: cleanName_def cleanName_fold)

lemma underscore_not_allowed: "CHR ''_'' \<notin> allowed_chars"
  by (simp add: allowed_chars_def)

lemma count_underscores:
  "count_list (map (\<lambda>c. if c \<in> allowed_chars then c else CHR ''_'') s) (CHR ''_'')
     = length (filter (\<lambda>c. c \<notin> allowed_chars) s)"
  by (induction s) (auto simp: underscore_not_allowed)

text \<open>
  C8. For every string \<open>s\<close>, \<open>cleanName s\<close> has the length of \<open>s\<close>; each of its characters
  is in \<open>[A-Za-z0-9.]\<close> or is the underscore; a character of \<open>s\<close> that is in
  \<open>[A-Za-z0-9.]\<close> is kept at its position; and the number of underscores in the result
  is the number of characters of \<open>s\<close> outside \<open>[A-Za-z0-9.]\<close>.
\<close>

theorem cleanName_sanitizes:
  "length (cleanName s) = length s \<and>
   (\<forall>c \<in> set (cleanName s). c \<in> allowed_chars \<or> c = CHR ''_'') \<and>
   (\<forall>i < length s. s ! i \<in> allowed_chars \<longrightarrow> cleanName s ! i = s ! i) \<and>
   count_list (cleanName s) (CHR ''_'') = length (filter (\<lambda>c. c \<notin> allowed_chars) s)"
proof (intro conjI)
  show "length (cleanName s) = length s"
    by (simp add: cleanName_map)
  show "\<forall>c \<in> set (cleanName s). c \<in> allowed_chars \<or> c = CHR ''_''"
    by (auto simp: cleanName_map)
  show "\<forall>i < length s. s ! i \<in> allowed_chars \<longrightarrow> cleanName s ! i = s ! i"
    by (simp add: cleanName_map)
  show "count_list (cleanName s) (CHR ''_'') = length (filter (\<lambda>c. c \<notin> allowed_chars) s)"
    by (simp add: cleanName_map count_underscores)
qed

theorem cleanName_sanitizes_witness:
  "cleanName ''a-b/c.D_9'' = ''a_b_c.D_9'' \<and>
   length (cleanName ''a-b/c.D_9'') = 9 \<and>
   cleanName ''a-b/c.D_9'' ! 4 = CHR ''c'' \<and>
   count_list (cleanName ''a-b/c.D_9'') (CHR ''_'') = 3"
proof -
  have computed: "cleanName ''a-b/c.D_9'' = ''a_b_c.D_9''"
    by (simp add: cleanName_def cleanName_step_def less_eq_char_def)
  have three: "length (filter (\<lambda>c. c \<notin> allowed_chars) ''a-b/c.D_9'') = 3"
    by (simp add: allowed_chars_def)
  have kept: "''a-b/c.D_9'' ! 4 \<in> allowed_chars"
    by (simp add: allowed_chars_def)
  from cleanName_sanitizes [of "''a-b/c.D_9''"]
  have "length (cleanName ''a-b/c.D_9'') = length ''a-b/c.D_9''"
    and "cleanName ''a-b/c.D_9'' ! 4 = ''a-b/c.D_9'' ! 4"
    and "count_list (cleanName ''a-b/c.D_9'') (CHR ''_'') = 3"
    using three kept by simp_all
  then show ?thesis
    using computed by simp
qed

subsection \<open>The flush\<close>

lemma trace_counter_fold:
  assumes "distinct (map snd fs)"
  shows "fold (trace_counter NowUS LiveUS isEntry T C) fs (Last, Events) =
     (\<lambda>NAME. if NAME \<in> snd ` set fs \<and> C NAME - Last NAME \<noteq> 0 then C NAME else Last NAME,
      Events @ map (\<lambda>(TY, NAME).
          \<lparr> TimeUSec = NowUS, LiveUSec = LiveUS, IsEntry = isEntry,
            EventName = TracerEventName T, CounterName = TY @ ''.'' @ NAME,
            CounterDelta = C NAME - Last NAME, CounterValue = C NAME,
            Entity = TracerEntity T \<rparr>)
        (filter (\<lambda>(TY, NAME). C NAME - Last NAME \<noteq> 0) fs))"
proof -
  define mk where "mk L = (\<lambda>(TY, NAME).
          \<lparr> TimeUSec = NowUS, LiveUSec = LiveUS, IsEntry = isEntry,
            EventName = TracerEventName T, CounterName = TY @ ''.'' @ NAME,
            CounterDelta = C NAME - L NAME, CounterValue = C NAME,
            Entity = TracerEntity T \<rparr>)" for L
  define p where "p L = (\<lambda>(TY :: string, NAME). C NAME - L NAME \<noteq> 0)" for L
  define upd where "upd ds L =
      (\<lambda>NAME. if NAME \<in> snd ` set ds \<and> C NAME - L NAME \<noteq> 0 then C NAME else L NAME)"
    for ds :: "(string \<times> string) list" and L
  have step: "trace_counter NowUS LiveUS isEntry T C d (L, E) =
      (if p L d then (L(snd d := C (snd d)), E @ [mk L d]) else (L, E))" for d L E
    by (cases d) (simp add: trace_counter_def mk_def p_def Let_def)
  have main: "distinct (map snd ds) \<Longrightarrow>
      fold (trace_counter NowUS LiveUS isEntry T C) ds (L, E) =
        (upd ds L, E @ map (mk L) (filter (p L) ds))" for ds L E
  proof (induction ds arbitrary: L E)
    case Nil
    show ?case by (simp add: upd_def)
  next
    case (Cons d ds)
    from Cons.prems have fresh: "snd d \<notin> snd ` set ds" and dist: "distinct (map snd ds)"
      by auto
    have notin: "x \<in> set ds \<Longrightarrow> snd x \<noteq> snd d" for x
      using fresh by (metis imageI)
    show ?case
    proof (cases "p L d")
      case True
      let ?L1 = "L(snd d := C (snd d))"
      have filt: "filter (p ?L1) ds = filter (p L) ds"
        by (rule filter_cong [OF refl]) (use notin in \<open>fastforce simp: p_def\<close>)
      have mp: "map (mk ?L1) (filter (p L) ds) = map (mk L) (filter (p L) ds)"
        by (rule map_cong [OF refl]) (use notin in \<open>fastforce simp: mk_def\<close>)
      have base: "upd ds ?L1 = upd (d # ds) L"
        using fresh True by (auto simp: upd_def p_def fun_eq_iff split: prod.splits)
      have "fold (trace_counter NowUS LiveUS isEntry T C) (d # ds) (L, E)
          = fold (trace_counter NowUS LiveUS isEntry T C) ds (?L1, E @ [mk L d])"
        using True by (simp add: step)
      also have "\<dots> = (upd ds ?L1, (E @ [mk L d]) @ map (mk ?L1) (filter (p ?L1) ds))"
        by (rule Cons.IH [OF dist])
      also have "\<dots> = (upd (d # ds) L, E @ map (mk L) (filter (p L) (d # ds)))"
        using True by (simp add: filt mp base)
      finally show ?thesis .
    next
      case False
      have base: "upd ds L = upd (d # ds) L"
        using False by (auto simp: upd_def p_def fun_eq_iff split: prod.splits)
      have "fold (trace_counter NowUS LiveUS isEntry T C) (d # ds) (L, E)
          = fold (trace_counter NowUS LiveUS isEntry T C) ds (L, E)"
        using False by (simp add: step)
      also have "\<dots> = (upd ds L, E @ map (mk L) (filter (p L) ds))"
        by (rule Cons.IH [OF dist])
      also have "\<dots> = (upd (d # ds) L, E @ map (mk L) (filter (p L) (d # ds)))"
        using False by (simp add: base)
      finally show ?thesis .
    qed
  qed
  show ?thesis
    using main [OF assms, of Last Events] unfolding mk_def p_def upd_def .
qed


lemma current_simps:
  "FrontendCounters r = None \<Longrightarrow> current r = zero_counters"
  "FrontendCounters r = Some C \<Longrightarrow> current r = C"
  by (simp_all add: current_def getFrontendCounters_def)

lemma getFrontendCounters_current:
  "getFrontendCounters r = (current r, r\<lparr>FrontendCounters := Some (current r)\<rparr>)"
  by (cases "FrontendCounters r") (simp_all add: current_def getFrontendCounters_def)

lemma saveAny_disabled:
  "LastTracedFrontendCounters r = None \<Longrightarrow> saveAnyFrontendStatsEvents defs T isEntry Now r = r"
  by (simp add: saveAnyFrontendStatsEvents_def)

lemma saveAny_enabled:
  assumes "LastTracedFrontendCounters r = Some Last"
      and "distinct (map snd (FRONTEND_STATISTIC defs))"
  shows "saveAnyFrontendStatsEvents defs T isEntry Now r =
     r\<lparr> FrontendCounters := Some (current r),
        LastTracedFrontendCounters :=
          Some (\<lambda>NAME. if NAME \<in> snd ` set (FRONTEND_STATISTIC defs) \<and> current r NAME - Last NAME \<noteq> 0
                        then current r NAME else Last NAME),
        FrontendStatsEvents :=
          FrontendStatsEvents r @
            map (flush_event T isEntry Now (current r) Last)
              (filter (\<lambda>(TY, NAME). current r NAME - Last NAME \<noteq> 0) (FRONTEND_STATISTIC defs)) \<rparr>"
  unfolding saveAnyFrontendStatsEvents_def flush_event_def
  by (simp add: assms(1) Let_def getFrontendCounters_current trace_counter_fold [OF assms(2)])

lemma getStatsTracer_live:
  "Reporter (fst (getStatsTracer defs name E saved Now r)) \<noteq> nullptr
     \<longleftrightarrow> LastTracedFrontendCounters r \<noteq> None"
  by (simp add: getStatsTracer_def FrontendStatsTracer_ctor_def FrontendStatsTracer_default_def
        Let_def)

lemma saveAny_stays_enabled:
  "LastTracedFrontendCounters (saveAnyFrontendStatsEvents defs T isEntry Now r) = None
     \<longleftrightarrow> LastTracedFrontendCounters r = None"
  by (simp add: saveAnyFrontendStatsEvents_def Let_def case_prod_beta split: option.splits)

text \<open>
  C2. A flush of a reporter with tracing enabled (the reporter of every tracer that is not
  inert), over a table of distinct counter names: the events appended are, in table order,
  one for each counter whose current value minus its baseline is not zero, and none for
  the others; the event carries that delta, the current value as cumulative value, the
  flag of the flush, and a live time of zero on an entry flush; afterwards the baseline of
  each such counter is its current value, and every other baseline is as before. The
  counters themselves are not changed.
\<close>

theorem flush_records_nonzero_deltas:
  assumes "LastTracedFrontendCounters r = Some Last"
      and "distinct (map snd (FRONTEND_STATISTIC defs))"
  shows "FrontendStatsEvents (saveAnyFrontendStatsEvents defs T isEntry Now r) =
           FrontendStatsEvents r @
             map (flush_event T isEntry Now (current r) Last)
               (filter (\<lambda>(TY, NAME). current r NAME - Last NAME \<noteq> 0) (FRONTEND_STATISTIC defs))
       \<and> LastTracedFrontendCounters (saveAnyFrontendStatsEvents defs T isEntry Now r) =
           Some (\<lambda>NAME. if NAME \<in> snd ` set (FRONTEND_STATISTIC defs) \<and> current r NAME - Last NAME \<noteq> 0
                         then current r NAME else Last NAME)
       \<and> current (saveAnyFrontendStatsEvents defs T isEntry Now r) = current r"
proof -
  let ?delta = "\<lambda>NAME. current r NAME - Last NAME"
  have flushed: "saveAnyFrontendStatsEvents defs T isEntry Now r =
      r\<lparr> FrontendCounters := Some (current r),
         LastTracedFrontendCounters :=
           Some (\<lambda>NAME. if NAME \<in> snd ` set (FRONTEND_STATISTIC defs) \<and> ?delta NAME \<noteq> 0
                         then current r NAME else Last NAME),
         FrontendStatsEvents :=
           FrontendStatsEvents r @
             map (flush_event T isEntry Now (current r) Last)
               (filter (\<lambda>(TY, NAME). ?delta NAME \<noteq> 0) (FRONTEND_STATISTIC defs)) \<rparr>"
    by (rule saveAny_enabled [OF assms])
  have counters: "current (saveAnyFrontendStatsEvents defs T isEntry Now r) = current r"
    unfolding flushed by (simp add: current_simps)
  from flushed counters show ?thesis
    by simp
qed


lemmas demo_simps =
  demo_defs_def demo_running_def demo_reporter_def demo_counters_def demo_tracer_def
  demo_time_def UnifiedStatsReporter_ctor_def setFrontendCounters_def getFrontendCounters_def
  zero_counters_def

theorem flush_records_nonzero_deltas_witness:
  "FrontendStatsEvents
     (saveAnyFrontendStatsEvents demo_defs demo_tracer False (demo_time 16) (demo_running True None))
     = [\<lparr> TimeUSec = 16, LiveUSec = 10, IsEntry = False, EventName = ''parse'',
          CounterName = ''AST.NumSourceLines'', CounterDelta = 100, CounterValue = 100,
          Entity = NullEntity \<rparr>] \<and>
   baseline
     (saveAnyFrontendStatsEvents demo_defs demo_tracer False (demo_time 16) (demo_running True None))
     ''NumSourceLines'' = Some 100 \<and>
   baseline
     (saveAnyFrontendStatsEvents demo_defs demo_tracer False (demo_time 16) (demo_running True None))
     ''NumProcessFailures'' = Some 0"
proof -
  have enabled: "LastTracedFrontendCounters (demo_running True None) = Some zero_counters"
    by (simp add: demo_simps)
  have names: "distinct (map snd (FRONTEND_STATISTIC demo_defs))"
    by (simp add: demo_defs_def)
  have cur: "current (demo_running True None) = demo_counters"
    by (simp add: current_def demo_running_def setFrontendCounters_def getFrontendCounters_def
          demo_reporter_def UnifiedStatsReporter_ctor_def)
  have log: "FrontendStatsEvents (demo_running True None) = []"
    by (simp add: demo_simps)
  show ?thesis
    using flush_records_nonzero_deltas [OF enabled names, of demo_tracer False "demo_time 16"]
    by (simp add: cur log baseline_def flush_event_def demo_defs_def demo_counters_def
          demo_tracer_def demo_time_def zero_counters_def)
qed

subsection \<open>Conservation of deltas\<close>

lemma dotted_suffix_unique:
  assumes "xs @ c # ys = xs' @ c # ys'" and "c \<notin> set ys" and "c \<notin> set ys'"
  shows "xs = xs' \<and> ys = ys'"
proof -
  have "rev ys @ c # rev xs = rev ys' @ c # rev xs'"
    using arg_cong [OF assms(1), of rev] by simp
  then have "takeWhile (\<lambda>x. x \<noteq> c) (rev ys @ c # rev xs)
      = takeWhile (\<lambda>x. x \<noteq> c) (rev ys' @ c # rev xs')"
    by simp
  moreover have "takeWhile (\<lambda>x. x \<noteq> c) (rev ys @ c # rev xs) = rev ys"
    by (subst takeWhile_append2) (use assms(2) in auto)
  moreover have "takeWhile (\<lambda>x. x \<noteq> c) (rev ys' @ c # rev xs') = rev ys'"
    by (subst takeWhile_append2) (use assms(3) in auto)
  ultimately have "ys = ys'"
    by simp
  with assms(1) show ?thesis
    by simp
qed

lemma counter_label_inj:
  assumes "wf_statistics defs"
  shows "inj_on counter_label (set (FRONTEND_STATISTIC defs))"
proof (rule inj_onI)
  fix a b
  assume a: "a \<in> set (FRONTEND_STATISTIC defs)" and b: "b \<in> set (FRONTEND_STATISTIC defs)"
    and eq: "counter_label a = counter_label b"
  obtain TY N where ab: "a = (TY, N)" by (cases a)
  obtain TY' N' where bb: "b = (TY', N')" by (cases b)
  from assms a b have "CHR ''.'' \<notin> set N" "CHR ''.'' \<notin> set N'"
    by (auto simp: wf_statistics_def list_all_iff ab bb)
  with eq show "a = b"
    using dotted_suffix_unique [of TY "CHR ''.''" N TY' N']
    by (simp add: counter_label_def ab bb)
qed

lemma filter_eq_singleton:
  "distinct xs \<Longrightarrow> d \<in> set xs \<Longrightarrow> filter (\<lambda>x. x = d) xs = [d]"
proof (induction xs)
  case Nil
  then show ?case by simp
next
  case (Cons x xs)
  show ?case
  proof (cases "x = d")
    case True
    with Cons.prems have "d \<notin> set xs" by simp
    then have "filter (\<lambda>x. x = d) xs = []"
      by (auto simp: filter_empty_conv)
    with True show ?thesis by simp
  next
    case False
    with Cons show ?thesis by simp
  qed
qed

lemma filter_label_singleton:
  assumes "wf_statistics defs" and "d \<in> set (FRONTEND_STATISTIC defs)"
  shows "filter (\<lambda>x. counter_label x = counter_label d) (FRONTEND_STATISTIC defs) = [d]"
proof -
  have dist: "distinct (FRONTEND_STATISTIC defs)"
    using assms(1) by (simp add: wf_statistics_def distinct_map)
  have "filter (\<lambda>x. counter_label x = counter_label d) (FRONTEND_STATISTIC defs)
      = filter (\<lambda>x. x = d) (FRONTEND_STATISTIC defs)"
    by (rule filter_cong [OF refl])
      (use counter_label_inj [OF assms(1)] assms(2) in \<open>auto dest: inj_onD\<close>)
  also have "\<dots> = [d]"
    using dist assms(2) by (rule filter_eq_singleton)
  finally show ?thesis .
qed

lemma recorded_delta_append:
  "recorded_delta name (xs @ ys) = recorded_delta name xs + recorded_delta name ys"
  by (simp add: recorded_delta_def)

lemma recorded_delta_Nil: "recorded_delta name [] = 0"
  by (simp add: recorded_delta_def)


lemma flush_recorded_delta:
  assumes wf: "wf_statistics defs" and d: "(TY, NAME) \<in> set (FRONTEND_STATISTIC defs)"
  shows "recorded_delta (TY @ ''.'' @ NAME)
           (map (flush_event T isEntry Now C Last)
              (filter (\<lambda>(TY, NAME). C NAME - Last NAME \<noteq> 0) (FRONTEND_STATISTIC defs)))
         = C NAME - Last NAME"
proof -
  let ?p = "\<lambda>(TY :: string, NAME). C NAME - Last NAME \<noteq> 0"
  let ?fs = "FRONTEND_STATISTIC defs"
  have name: "CounterName (flush_event T isEntry Now C Last x) = counter_label x" for x
    by (cases x) (simp add: flush_event_def counter_label_def)
  have delta: "CounterDelta (flush_event T isEntry Now C Last x) = C (snd x) - Last (snd x)" for x
    by (cases x) (simp add: flush_event_def)
  have lab: "TY @ ''.'' @ NAME = counter_label (TY, NAME)"
    by (simp add: counter_label_def)
  have "filter (\<lambda>E. CounterName E = TY @ ''.'' @ NAME) (map (flush_event T isEntry Now C Last) (filter ?p ?fs))
      = map (flush_event T isEntry Now C Last)
          (filter ?p (filter (\<lambda>x. counter_label x = counter_label (TY, NAME)) ?fs))"
    unfolding lab by (simp add: filter_map comp_def name conj_commute)
  also have "\<dots> = map (flush_event T isEntry Now C Last) (filter ?p [(TY, NAME)])"
    by (simp only: filter_label_singleton [OF wf d])
  finally show ?thesis
    by (simp add: recorded_delta_def delta)
qed

lemma saveAny_delta:
  assumes wf: "wf_statistics defs" and d: "(TY, NAME) \<in> set (FRONTEND_STATISTIC defs)"
    and en: "LastTracedFrontendCounters r = Some Last"
  shows "\<exists>new Last'.
      FrontendStatsEvents (saveAnyFrontendStatsEvents defs T isEntry Now r) = FrontendStatsEvents r @ new \<and>
      LastTracedFrontendCounters (saveAnyFrontendStatsEvents defs T isEntry Now r) = Some Last' \<and>
      Last' NAME = current r NAME \<and>
      current (saveAnyFrontendStatsEvents defs T isEntry Now r) = current r \<and>
      recorded_delta (TY @ ''.'' @ NAME) new = current r NAME - Last NAME"
proof -
  have dist: "distinct (map snd (FRONTEND_STATISTIC defs))"
    using wf by (simp add: wf_statistics_def)
  have mem: "NAME \<in> snd ` set (FRONTEND_STATISTIC defs)"
    using d by force
  show ?thesis
    unfolding saveAny_enabled [OF en dist]
    using flush_recorded_delta [OF wf d, of T isEntry Now "current r" Last] mem
    by (auto simp: current_simps)
qed

lemma setFrontendCounters_fields:
  "LastTracedFrontendCounters (setFrontendCounters f r) = LastTracedFrontendCounters r"
  "FrontendStatsEvents (setFrontendCounters f r) = FrontendStatsEvents r"
  "current (setFrontendCounters f r) = f (current r)"
  by (simp_all add: setFrontendCounters_def getFrontendCounters_current current_simps)

lemma run_delta:
  assumes wf: "wf_statistics defs" and d: "(TY, NAME) \<in> set (FRONTEND_STATISTIC defs)"
  shows "LastTracedFrontendCounters r = Some Last \<Longrightarrow>
    \<exists>new Last'.
      FrontendStatsEvents (run defs acts r) = FrontendStatsEvents r @ new \<and>
      LastTracedFrontendCounters (run defs acts r) = Some Last' \<and>
      recorded_delta (TY @ ''.'' @ NAME) new = Last' NAME - Last NAME"
proof (induction acts arbitrary: r Last)
  case Nil
  then show ?case by (simp add: recorded_delta_Nil)
next
  case (Cons a acts)
  show ?case
  proof (cases a)
    case (Mutate f)
    from Cons.prems have "LastTracedFrontendCounters (setFrontendCounters f r) = Some Last"
      by (simp add: setFrontendCounters_fields)
    from Cons.IH [OF this] show ?thesis
      by (simp add: Mutate setFrontendCounters_fields)
  next
    case (Flush T isEntry Now)
    let ?r1 = "saveAnyFrontendStatsEvents defs T isEntry Now r"
    from saveAny_delta [OF wf d Cons.prems, of T isEntry Now]
    obtain new1 Last1 where
      ev1: "FrontendStatsEvents ?r1 = FrontendStatsEvents r @ new1" and
      l1: "LastTracedFrontendCounters ?r1 = Some Last1" and
      b1: "Last1 NAME = current r NAME" and
      d1: "recorded_delta (TY @ ''.'' @ NAME) new1 = current r NAME - Last NAME"
      by blast
    from Cons.IH [OF l1] obtain new2 Last2 where
      ev2: "FrontendStatsEvents (run defs acts ?r1) = FrontendStatsEvents ?r1 @ new2" and
      l2: "LastTracedFrontendCounters (run defs acts ?r1) = Some Last2" and
      d2: "recorded_delta (TY @ ''.'' @ NAME) new2 = Last2 NAME - Last1 NAME"
      by blast
    have "recorded_delta (TY @ ''.'' @ NAME) (new1 @ new2) = Last2 NAME - Last NAME"
      using d1 d2 b1 by (simp add: recorded_delta_append)
    with ev1 ev2 l2 show ?thesis
      by (auto simp: Flush)
  qed
qed


lemma getStatsTracer_enabled:
  "LastTracedFrontendCounters r = Some Last \<Longrightarrow>
   getStatsTracer defs name E saved Now r =
     (\<lparr> Reporter = this_reporter, SavedTime = saved, TracerEventName = name, TracerEntity = E \<rparr>,
      saveAnyFrontendStatsEvents defs
        \<lparr> Reporter = this_reporter, SavedTime = saved, TracerEventName = name, TracerEntity = E \<rparr>
        True Now r)"
  by (simp add: getStatsTracer_def FrontendStatsTracer_ctor_def Let_def)

lemma getStatsTracer_disabled:
  "LastTracedFrontendCounters r = None \<Longrightarrow>
   getStatsTracer defs name E saved Now r = (FrontendStatsTracer_default, r)"
  by (simp add: getStatsTracer_def)

text \<open>
  C3, as amended. For a counter of a well-formed table and a scope of a reporter with
  tracing enabled, whose body writes counters and may hold further flushes: the deltas of
  the events recorded for the counter after the entry flush of the scope, through its exit
  flush, add up (in the arithmetic of \<open>size_t\<close>) to the current value at exit minus the
  current value at entry. With the events of the entry flush included, they add up to the
  current value at exit minus the baseline before the entry flush: the entry flush records
  what changed since the flush before it.
\<close>

theorem scope_delta_conservation:
  assumes "wf_statistics defs"
      and "(TY, NAME) \<in> set (FRONTEND_STATISTIC defs)"
      and "LastTracedFrontendCounters r0 = Some Last0"
      and "traced_scope defs name E saved t1 body t2 r0 = (r1, r2, r3)"
  shows "recorded_delta (TY @ ''.'' @ NAME)
           (drop (length (FrontendStatsEvents r1)) (FrontendStatsEvents r3))
           = current r2 NAME - current r0 NAME
       \<and> recorded_delta (TY @ ''.'' @ NAME)
           (drop (length (FrontendStatsEvents r0)) (FrontendStatsEvents r3))
           = current r2 NAME - Last0 NAME"
proof -
  let ?S = "\<lparr> Reporter = this_reporter, SavedTime = saved, TracerEventName = name, TracerEntity = E \<rparr>"
  let ?l = "TY @ ''.'' @ NAME"
  from assms(4) have r1: "r1 = saveAnyFrontendStatsEvents defs ?S True t1 r0"
    and r2: "r2 = run defs body r1"
    and r3: "r3 = saveAnyFrontendStatsEvents defs ?S False t2 r2"
    by (auto simp: traced_scope_def getStatsTracer_enabled [OF assms(3)] Let_def
          FrontendStatsTracer_dtor_def)
  from saveAny_delta [OF assms(1,2,3), of ?S True t1]
  obtain new1 Last1 where
    ev1: "FrontendStatsEvents r1 = FrontendStatsEvents r0 @ new1" and
    l1: "LastTracedFrontendCounters r1 = Some Last1" and
    b1: "Last1 NAME = current r0 NAME" and
    d1: "recorded_delta ?l new1 = current r0 NAME - Last0 NAME"
    unfolding r1 by blast
  from run_delta [OF assms(1,2) l1, of body]
  obtain new2 Last2 where
    ev2: "FrontendStatsEvents r2 = FrontendStatsEvents r1 @ new2" and
    l2: "LastTracedFrontendCounters r2 = Some Last2" and
    d2: "recorded_delta ?l new2 = Last2 NAME - Last1 NAME"
    unfolding r2 by blast
  from saveAny_delta [OF assms(1,2) l2, of ?S False t2]
  obtain new3 where
    ev3: "FrontendStatsEvents r3 = FrontendStatsEvents r2 @ new3" and
    d3: "recorded_delta ?l new3 = current r2 NAME - Last2 NAME"
    unfolding r3 by blast
  have after_entry: "drop (length (FrontendStatsEvents r1)) (FrontendStatsEvents r3) = new2 @ new3"
    by (simp add: ev3 ev2)
  have from_entry: "drop (length (FrontendStatsEvents r0)) (FrontendStatsEvents r3) = new1 @ new2 @ new3"
    by (simp add: ev3 ev2 ev1)
  have "recorded_delta ?l (new2 @ new3) = current r2 NAME - current r0 NAME"
    using d2 d3 b1 by (simp add: recorded_delta_append)
  moreover have "recorded_delta ?l (new1 @ new2 @ new3) = current r2 NAME - Last0 NAME"
    using d1 d2 d3 b1 by (simp add: recorded_delta_append)
  ultimately show ?thesis
    unfolding after_entry from_entry by simp
qed


lemma demo_running_fields:
  "LastTracedFrontendCounters (demo_running True SM) = Some zero_counters"
  "FrontendStatsEvents (demo_running T SM) = []"
  "current (demo_running T SM) = demo_counters"
  "FrontendCounters (demo_running T SM) = Some demo_counters"
  by (simp_all add: demo_running_def demo_reporter_def UnifiedStatsReporter_ctor_def
        setFrontendCounters_def getFrontendCounters_def current_def)

lemma demo_defs_wf: "wf_statistics demo_defs"
  by (simp add: wf_statistics_def demo_defs_def)

lemma demo_entry_flush:
  "saveAnyFrontendStatsEvents demo_defs T True Now (demo_running True SM) =
     (demo_running True SM)
       \<lparr> FrontendCounters := Some demo_counters,
         LastTracedFrontendCounters := Some demo_counters,
         FrontendStatsEvents :=
           [\<lparr> TimeUSec = ProcessTimeUS Now, LiveUSec = 0, IsEntry = True,
              EventName = TracerEventName T, CounterName = ''AST.NumSourceLines'',
              CounterDelta = 100, CounterValue = 100, Entity = TracerEntity T \<rparr>] \<rparr>"
proof -
  have dist: "distinct (map snd (FRONTEND_STATISTIC demo_defs))"
    by (simp add: demo_defs_def)
  have base: "(\<lambda>NAME. if NAME \<in> snd ` set (FRONTEND_STATISTIC demo_defs) \<and>
                         demo_counters NAME - zero_counters NAME \<noteq> (0 :: 64 word)
                      then demo_counters NAME else zero_counters NAME) = demo_counters"
    by (auto simp: fun_eq_iff demo_defs_def demo_counters_def zero_counters_def)
  show ?thesis
    unfolding saveAny_enabled [OF demo_running_fields(1) dist] demo_running_fields base
    by (simp add: demo_defs_def flush_event_def demo_counters_def zero_counters_def)
qed

text \<open>
  A counterexample to C3 as stated, with the events of the entry flush counted: the line counter is at
  100 before the scope opens and the body changes nothing, yet the entry flush records a
  delta of 100.
\<close>

theorem scope_delta_inclusive_counterexample:
  "recorded_delta ''AST.NumSourceLines''
     (drop (length (FrontendStatsEvents (demo_running True None)))
        (FrontendStatsEvents (snd (snd (demo_scope None [])))))
   \<noteq> current (fst (snd (demo_scope None []))) ''NumSourceLines''
       - current (demo_running True None) ''NumSourceLines''"
proof -
  let ?S = "\<lparr> Reporter = this_reporter, SavedTime = demo_time 6, TracerEventName = ''parse'',
               TracerEntity = NullEntity \<rparr>"
  let ?r1 = "saveAnyFrontendStatsEvents demo_defs ?S True (demo_time 6) (demo_running True None)"
  have scope: "demo_scope None [] =
      (?r1, ?r1, saveAnyFrontendStatsEvents demo_defs ?S False (demo_time 16) ?r1)"
    by (simp add: demo_scope_def traced_scope_def
          getStatsTracer_enabled [OF demo_running_fields(1)] FrontendStatsTracer_dtor_def)
  have dist: "distinct (map snd (FRONTEND_STATISTIC demo_defs))"
    by (simp add: demo_defs_def)
  have l1: "LastTracedFrontendCounters ?r1 = Some demo_counters"
    by (simp add: demo_entry_flush)
  have c1: "current ?r1 = demo_counters"
    by (simp add: demo_entry_flush current_simps)
  have log: "FrontendStatsEvents (saveAnyFrontendStatsEvents demo_defs ?S False (demo_time 16) ?r1)
      = [\<lparr> TimeUSec = 6, LiveUSec = 0, IsEntry = True, EventName = ''parse'',
            CounterName = ''AST.NumSourceLines'', CounterDelta = 100, CounterValue = 100,
            Entity = NullEntity \<rparr>]"
    unfolding saveAny_enabled [OF l1 dist] c1
    by (simp add: demo_entry_flush demo_time_def)
  show ?thesis
    unfolding scope
    by (simp add: log c1 demo_running_fields recorded_delta_def)
qed

theorem scope_delta_conservation_witness:
  "recorded_delta ''AST.NumSourceLines''
     (drop (length (FrontendStatsEvents (fst (demo_scope None demo_body))))
        (FrontendStatsEvents (snd (snd (demo_scope None demo_body))))) = 150 \<and>
   recorded_delta ''AST.NumSourceLines''
     (drop (length (FrontendStatsEvents (demo_running True None)))
        (FrontendStatsEvents (snd (snd (demo_scope None demo_body))))) = 250"
proof -
  have mem: "(''AST'', ''NumSourceLines'') \<in> set (FRONTEND_STATISTIC demo_defs)"
    by (simp add: demo_defs_def)
  have scope: "traced_scope demo_defs ''parse'' NullEntity (demo_time 6) (demo_time 6) demo_body
       (demo_time 16) (demo_running True None)
     = (fst (demo_scope None demo_body), fst (snd (demo_scope None demo_body)), snd (snd (demo_scope None demo_body)))"
    by (simp add: demo_scope_def)
  have r2: "fst (snd (demo_scope None demo_body)) = run demo_defs demo_body (fst (demo_scope None demo_body))"
    by (simp add: demo_scope_def traced_scope_def Let_def split: prod.splits)
  have c2: "current (fst (snd (demo_scope None demo_body))) ''NumSourceLines'' = 250"
    unfolding r2 by (simp add: demo_body_def setFrontendCounters_fields)
  have c0: "current (demo_running True None) ''NumSourceLines'' = 100"
    by (simp add: demo_running_fields demo_counters_def)
  show ?thesis
    using scope_delta_conservation [OF demo_defs_wf mem demo_running_fields(1) scope]
    by (simp add: c2 c0 zero_counters_def)
qed

subsection \<open>Order of the event list\<close>

lemma trace_counter_fold_tagged:
  "\<exists>new. snd (fold (trace_counter NowUS LiveUS isEntry T C) fs (Last, Events)) = Events @ new \<and>
         list_all (\<lambda>x. EventName x = TracerEventName T \<and> IsEntry x = isEntry) new"
proof (induction fs arbitrary: Last Events)
  case Nil
  show ?case by simp
next
  case (Cons d fs)
  obtain TY NAME where d: "d = (TY, NAME)" by (cases d)
  obtain Last1 add where step:
    "trace_counter NowUS LiveUS isEntry T C d (Last, Events) = (Last1, Events @ add)"
    "list_all (\<lambda>x. EventName x = TracerEventName T \<and> IsEntry x = isEntry) add"
  proof (cases "C NAME - Last NAME \<noteq> 0")
    case True
    show ?thesis
      by (rule that [of "Last(NAME := C NAME)"
            "[\<lparr> TimeUSec = NowUS, LiveUSec = LiveUS, IsEntry = isEntry,
                EventName = TracerEventName T, CounterName = TY @ ''.'' @ NAME,
                CounterDelta = C NAME - Last NAME, CounterValue = C NAME,
                Entity = TracerEntity T \<rparr>]"])
        (use True in \<open>simp_all add: trace_counter_def d Let_def\<close>)
  next
    case False
    show ?thesis
      by (rule that [of Last "[]"]) (use False in \<open>simp_all add: trace_counter_def d Let_def\<close>)
  qed
  from Cons.IH [of Last1 "Events @ add"] obtain new where
    "snd (fold (trace_counter NowUS LiveUS isEntry T C) fs (Last1, Events @ add)) = (Events @ add) @ new"
    "list_all (\<lambda>x. EventName x = TracerEventName T \<and> IsEntry x = isEntry) new"
    by blast
  with step show ?case
    by (intro exI [of _ "add @ new"]) simp
qed

lemma saveAny_appends:
  "\<exists>new. FrontendStatsEvents (saveAnyFrontendStatsEvents defs T isEntry Now r)
            = FrontendStatsEvents r @ new \<and>
         list_all (\<lambda>x. EventName x = TracerEventName T \<and> IsEntry x = isEntry) new"
proof (cases "LastTracedFrontendCounters r")
  case None
  then show ?thesis
    by (intro exI [of _ "[]"]) (simp add: saveAny_disabled)
next
  case (Some Last)
  from trace_counter_fold_tagged
    [of "ProcessTimeUS Now" "if isEntry then 0 else ProcessTimeUS Now - ProcessTimeUS (SavedTime T)"
        isEntry T "current r" "FRONTEND_STATISTIC defs" Last "FrontendStatsEvents r"]
  obtain new where
    "snd (fold (trace_counter (ProcessTimeUS Now)
            (if isEntry then 0 else ProcessTimeUS Now - ProcessTimeUS (SavedTime T))
            isEntry T (current r)) (FRONTEND_STATISTIC defs) (Last, FrontendStatsEvents r))
       = FrontendStatsEvents r @ new"
    "list_all (\<lambda>x. EventName x = TracerEventName T \<and> IsEntry x = isEntry) new"
    by blast
  then show ?thesis
    by (intro exI [of _ new])
      (simp add: saveAnyFrontendStatsEvents_def Some Let_def getFrontendCounters_current
         case_prod_beta)
qed

lemma appended_eq:
  "FrontendStatsEvents r' = FrontendStatsEvents r @ new \<Longrightarrow> appended r r' = new"
  by (simp add: appended_def)

lemma getStatsTracer_appends:
  assumes "getStatsTracer defs name E saved Now r = (T, r1)"
  shows "FrontendStatsEvents r1 = FrontendStatsEvents r @ appended r r1"
    and "list_all (\<lambda>x. EventName x = name \<and> IsEntry x) (appended r r1)"
    and "Reporter T = nullptr \<or> TracerEventName T = name"
proof -
  have "\<exists>new. FrontendStatsEvents r1 = FrontendStatsEvents r @ new \<and>
           list_all (\<lambda>x. EventName x = name \<and> IsEntry x) new"
  proof (cases "LastTracedFrontendCounters r")
    case None
    with assms show ?thesis by (simp add: getStatsTracer_disabled)
  next
    case (Some Last)
    from assms show ?thesis
      unfolding getStatsTracer_enabled [OF Some]
      using saveAny_appends [of defs
          "\<lparr> Reporter = this_reporter, SavedTime = saved, TracerEventName = name, TracerEntity = E \<rparr>"
          True Now r]
      by auto
  qed
  then obtain new where new: "FrontendStatsEvents r1 = FrontendStatsEvents r @ new"
    "list_all (\<lambda>x. EventName x = name \<and> IsEntry x) new"
    by blast
  from new show "FrontendStatsEvents r1 = FrontendStatsEvents r @ appended r r1"
    by (simp add: appended_eq)
  from new show "list_all (\<lambda>x. EventName x = name \<and> IsEntry x) (appended r r1)"
    by (simp add: appended_eq)
  from assms show "Reporter T = nullptr \<or> TracerEventName T = name"
    by (cases "LastTracedFrontendCounters r")
      (auto simp: getStatsTracer_def FrontendStatsTracer_ctor_def FrontendStatsTracer_default_def
         Let_def)
qed

lemma tracer_dtor_appends:
  assumes "Reporter T = nullptr \<or> TracerEventName T = name"
    and "r' = FrontendStatsTracer_dtor defs T Now r"
  shows "FrontendStatsEvents r' = FrontendStatsEvents r @ appended r r'"
    and "list_all (\<lambda>x. EventName x = name \<and> \<not> IsEntry x) (appended r r')"
proof -
  have "\<exists>new. FrontendStatsEvents r' = FrontendStatsEvents r @ new \<and>
           list_all (\<lambda>x. EventName x = name \<and> \<not> IsEntry x) new"
  proof (cases "Reporter T = nullptr")
    case True
    then show ?thesis by (simp add: assms(2) FrontendStatsTracer_dtor_def)
  next
    case False
    with assms(1) have "TracerEventName T = name" by simp
    with False saveAny_appends [of defs T False Now r] show ?thesis
      by (auto simp: assms(2) FrontendStatsTracer_dtor_def)
  qed
  then obtain new where new: "FrontendStatsEvents r' = FrontendStatsEvents r @ new"
    "list_all (\<lambda>x. EventName x = name \<and> \<not> IsEntry x) new"
    by blast
  from new show "FrontendStatsEvents r' = FrontendStatsEvents r @ appended r r'"
    by (simp add: appended_eq)
  from new show "list_all (\<lambda>x. EventName x = name \<and> \<not> IsEntry x) (appended r r')"
    by (simp add: appended_eq)
qed

lemma appended_setFrontendCounters:
  "appended (setFrontendCounters f r) r' = appended r r'"
  by (simp add: appended_def setFrontendCounters_fields)

text \<open>
  C6. The event list only grows, in the order of the flushes. For an outer tracer \<open>A\<close>
  and an inner tracer \<open>B\<close> with the lifecycle \<open>A\<close> begins, \<open>B\<close> begins, \<open>B\<close> ends,
  \<open>A\<close> ends, and counters written before each of these points: the final list is the
  initial list followed by the events of the entry flush of \<open>A\<close>, then those of the
  entry flush of \<open>B\<close>, then those of the exit flush of \<open>B\<close>, then those of the exit
  flush of \<open>A\<close>; each state extends the one before.
\<close>

theorem nested_flush_order:
  assumes "getStatsTracer defs nameA EA savedA tA r0 = (A, r1)"
      and "getStatsTracer defs nameB EB savedB tB (setFrontendCounters f1 r1) = (B, r2)"
      and "r3 = FrontendStatsTracer_dtor defs B tB' (setFrontendCounters f2 r2)"
      and "r4 = FrontendStatsTracer_dtor defs A tA' (setFrontendCounters f3 r3)"
  shows "FrontendStatsEvents r4 =
           FrontendStatsEvents r0 @ appended r0 r1 @ appended r1 r2 @ appended r2 r3 @ appended r3 r4
       \<and> FrontendStatsEvents r1 = FrontendStatsEvents r0 @ appended r0 r1
       \<and> FrontendStatsEvents r2 = FrontendStatsEvents r1 @ appended r1 r2
       \<and> FrontendStatsEvents r3 = FrontendStatsEvents r2 @ appended r2 r3
       \<and> list_all (\<lambda>x. EventName x = nameA \<and> IsEntry x) (appended r0 r1)
       \<and> list_all (\<lambda>x. EventName x = nameB \<and> IsEntry x) (appended r1 r2)
       \<and> list_all (\<lambda>x. EventName x = nameB \<and> \<not> IsEntry x) (appended r2 r3)
       \<and> list_all (\<lambda>x. EventName x = nameA \<and> \<not> IsEntry x) (appended r3 r4)"
proof -
  note a = getStatsTracer_appends [OF assms(1)]
  note b = getStatsTracer_appends [OF assms(2)]
  note c = tracer_dtor_appends [OF b(3) assms(3)]
  note d = tracer_dtor_appends [OF a(3) assms(4)]
  have e1: "FrontendStatsEvents r1 = FrontendStatsEvents r0 @ appended r0 r1"
    by (rule a(1))
  have e2: "FrontendStatsEvents r2 = FrontendStatsEvents r1 @ appended r1 r2"
    using b(1) by (simp add: setFrontendCounters_fields appended_setFrontendCounters)
  have e3: "FrontendStatsEvents r3 = FrontendStatsEvents r2 @ appended r2 r3"
    using c(1) by (simp add: setFrontendCounters_fields appended_setFrontendCounters)
  have e4: "FrontendStatsEvents r4 = FrontendStatsEvents r3 @ appended r3 r4"
    using d(1) by (simp add: setFrontendCounters_fields appended_setFrontendCounters)
  have all: "FrontendStatsEvents r4 =
      FrontendStatsEvents r0 @ appended r0 r1 @ appended r1 r2 @ appended r2 r3 @ appended r3 r4"
    by (metis e1 e2 e3 e4 append.assoc)
  from all e1 e2 e3 a(2) b(2) c(2) d(2) show ?thesis
    by (simp only: appended_setFrontendCounters simp_thms)
qed


lemma demo_A_end_log:
  "map (\<lambda>x. (EventName x, IsEntry x, CounterDelta x)) (FrontendStatsEvents demo_A_end) =
     [(''outer'', True, 100), (''inner'', True, 50), (''inner'', False, 25), (''outer'', False, 25)]"
  by (simp add: demo_A_end_def demo_B_end_def demo_B_def demo_A_def getStatsTracer_def
        FrontendStatsTracer_ctor_def FrontendStatsTracer_dtor_def saveAnyFrontendStatsEvents_def
        trace_counter_def demo_simps Let_def)

theorem nested_flush_order_witness:
  "map (\<lambda>x. (EventName x, IsEntry x, CounterDelta x)) (FrontendStatsEvents demo_A_end) =
     [(''outer'', True, 100), (''inner'', True, 50), (''inner'', False, 25), (''outer'', False, 25)]
   \<and> FrontendStatsEvents demo_A_end =
       FrontendStatsEvents (demo_running True None) @ appended (demo_running True None) (snd demo_A)
         @ appended (snd demo_A) (snd demo_B) @ appended (snd demo_B) demo_B_end
         @ appended demo_B_end demo_A_end
   \<and> list_all (\<lambda>x. EventName x = ''inner'' \<and> IsEntry x) (appended (snd demo_A) (snd demo_B))"
proof -
  have A: "getStatsTracer demo_defs ''outer'' NullEntity (demo_time 6) (demo_time 6)
      (demo_running True None) = (fst demo_A, snd demo_A)"
    by (simp add: demo_A_def)
  have B: "getStatsTracer demo_defs ''inner'' NullEntity (demo_time 7) (demo_time 7)
       (setFrontendCounters (\<lambda>C. C(''NumSourceLines'' := 150)) (snd demo_A)) = (fst demo_B, snd demo_B)"
    by (simp add: demo_B_def)
  show ?thesis
    using nested_flush_order [OF A B demo_B_end_def demo_A_end_def] demo_A_end_log
    by simp
qed

subsection \<open>Inert tracers and moves\<close>

lemma move_ctor_destination:
  "fst (FrontendStatsTracer_move_ctor other) = other"
  by (cases other) (simp add: FrontendStatsTracer_move_ctor_def)

lemma move_assign_source:
  "Reporter (FrontendStatsTracer_move_assign this other H other) = nullptr"
  by (simp add: FrontendStatsTracer_move_assign_def Let_def)

lemma move_assign_destination:
  "this \<noteq> other \<Longrightarrow> FrontendStatsTracer_move_assign this other H this = H other"
  by (cases "H other"; cases "H this") (simp add: FrontendStatsTracer_move_assign_def Let_def)

lemma move_assign_frame:
  "a \<noteq> this \<Longrightarrow> a \<noteq> other \<Longrightarrow> FrontendStatsTracer_move_assign this other H a = H a"
  by (simp add: FrontendStatsTracer_move_assign_def Let_def)

lemma tracer_dtor_inert:
  "Reporter T = nullptr \<Longrightarrow> FrontendStatsTracer_dtor defs T Now r = r"
  by (simp add: FrontendStatsTracer_dtor_def)

lemma tracer_dtor_live:
  "Reporter T \<noteq> nullptr \<Longrightarrow>
     FrontendStatsTracer_dtor defs T Now r = saveAnyFrontendStatsEvents defs T False Now r"
  by (simp add: FrontendStatsTracer_dtor_def)

text \<open>
  C7, as amended. A default-constructed tracer has no reporter, and neither has the source
  of a move construction or of a move assignment afterwards; releasing such a tracer
  leaves the reporter as it is, whatever its counters hold, so no event is appended.
  Creating it does not touch the reporter either: the default constructor and the moves
  take no reporter. After a move from a live tracer into a distinct tracer object, the
  release of the destination is the exit flush of the source's scope (the flush with the
  source's event name, entity and start time), and no other object of the store is
  changed. A move assignment of a tracer to itself leaves that tracer inert.
\<close>

theorem inert_and_moved_tracers:
  "Reporter FrontendStatsTracer_default = nullptr
   \<and> FrontendStatsTracer_dtor defs FrontendStatsTracer_default Now r = r
   \<and> Reporter (snd (FrontendStatsTracer_move_ctor other)) = nullptr
   \<and> FrontendStatsTracer_dtor defs (snd (FrontendStatsTracer_move_ctor other)) Now r = r
   \<and> Reporter (FrontendStatsTracer_move_assign dst src H src) = nullptr
   \<and> FrontendStatsTracer_dtor defs (FrontendStatsTracer_move_assign dst src H src) Now r = r
   \<and> (Reporter other \<noteq> nullptr \<longrightarrow>
        FrontendStatsTracer_dtor defs (fst (FrontendStatsTracer_move_ctor other)) Now r
          = saveAnyFrontendStatsEvents defs other False Now r)
   \<and> (dst \<noteq> src \<and> Reporter (H src) \<noteq> nullptr \<longrightarrow>
        FrontendStatsTracer_dtor defs (FrontendStatsTracer_move_assign dst src H dst) Now r
          = saveAnyFrontendStatsEvents defs (H src) False Now r)
   \<and> (\<forall>a. a \<noteq> dst \<and> a \<noteq> src \<longrightarrow> FrontendStatsTracer_move_assign dst src H a = H a)"
proof (intro conjI)
  show "Reporter FrontendStatsTracer_default = nullptr"
    by (simp add: FrontendStatsTracer_default_def)
  then show "FrontendStatsTracer_dtor defs FrontendStatsTracer_default Now r = r"
    by (rule tracer_dtor_inert)
  show moved: "Reporter (snd (FrontendStatsTracer_move_ctor other)) = nullptr"
    by (simp add: FrontendStatsTracer_move_ctor_def)
  then show "FrontendStatsTracer_dtor defs (snd (FrontendStatsTracer_move_ctor other)) Now r = r"
    by (rule tracer_dtor_inert)
  show "Reporter (FrontendStatsTracer_move_assign dst src H src) = nullptr"
    by (rule move_assign_source)
  then show "FrontendStatsTracer_dtor defs (FrontendStatsTracer_move_assign dst src H src) Now r = r"
    by (rule tracer_dtor_inert)
  show "Reporter other \<noteq> nullptr \<longrightarrow>
        FrontendStatsTracer_dtor defs (fst (FrontendStatsTracer_move_ctor other)) Now r
          = saveAnyFrontendStatsEvents defs other False Now r"
    by (simp add: move_ctor_destination tracer_dtor_live)
  show "dst \<noteq> src \<and> Reporter (H src) \<noteq> nullptr \<longrightarrow>
        FrontendStatsTracer_dtor defs (FrontendStatsTracer_move_assign dst src H dst) Now r
          = saveAnyFrontendStatsEvents defs (H src) False Now r"
    by (simp add: move_assign_destination tracer_dtor_live)
  show "\<forall>a. a \<noteq> dst \<and> a \<noteq> src \<longrightarrow> FrontendStatsTracer_move_assign dst src H a = H a"
    by (simp add: move_assign_frame)
qed

lemma demo_exit_flush:
  "FrontendStatsEvents
     (saveAnyFrontendStatsEvents demo_defs demo_tracer False (demo_time 16) (demo_running True None))
     = [\<lparr> TimeUSec = 16, LiveUSec = 10, IsEntry = False, EventName = ''parse'',
          CounterName = ''AST.NumSourceLines'', CounterDelta = 100, CounterValue = 100,
          Entity = NullEntity \<rparr>]"
  by (simp add: saveAnyFrontendStatsEvents_def trace_counter_def demo_simps Let_def)

theorem inert_and_moved_tracers_witness:
  "FrontendStatsEvents
     (FrontendStatsTracer_dtor demo_defs (fst (FrontendStatsTracer_move_ctor demo_tracer))
        (demo_time 16) (demo_running True None))
     = [\<lparr> TimeUSec = 16, LiveUSec = 10, IsEntry = False, EventName = ''parse'',
          CounterName = ''AST.NumSourceLines'', CounterDelta = 100, CounterValue = 100,
          Entity = NullEntity \<rparr>]
   \<and> FrontendStatsEvents
       (FrontendStatsTracer_dtor demo_defs (snd (FrontendStatsTracer_move_ctor demo_tracer))
          (demo_time 16) (demo_running True None)) = []
   \<and> FrontendStatsEvents
       (FrontendStatsTracer_dtor demo_defs (FrontendStatsTracer_move_assign 1 0 demo_store 1)
          (demo_time 16) (demo_running True None))
     = [\<lparr> TimeUSec = 16, LiveUSec = 10, IsEntry = False, EventName = ''parse'',
          CounterName = ''AST.NumSourceLines'', CounterDelta = 100, CounterValue = 100,
          Entity = NullEntity \<rparr>]
   \<and> FrontendStatsEvents
       (FrontendStatsTracer_dtor demo_defs (FrontendStatsTracer_move_assign 1 0 demo_store 0)
          (demo_time 16) (demo_running True None)) = []
   \<and> FrontendStatsTracer_move_assign 1 0 demo_store 2 = FrontendStatsTracer_default"
proof -
  have live: "Reporter demo_tracer \<noteq> nullptr" "Reporter (demo_store 0) \<noteq> nullptr"
    by (simp_all add: demo_tracer_def demo_store_def)
  have distinct: "(1 :: nat) \<noteq> 0" "(2 :: nat) \<noteq> 1 \<and> (2 :: nat) \<noteq> 0"
    by simp_all
  have src: "demo_store 0 = demo_tracer" "demo_store 2 = FrontendStatsTracer_default"
    by (simp_all add: demo_store_def)
  show ?thesis
    using inert_and_moved_tracers
      [of demo_defs "demo_time 16" "demo_running True None" demo_tracer 1 0 demo_store]
      live distinct
    by (simp add: src demo_exit_flush demo_running_fields)
qed

text \<open>
  A counterexample to C7 as stated: a live tracer move-assigned to itself is the
  destination of the move, yet afterwards it has no reporter and its release appends
  nothing, although the exit flush of its scope would record an event.
\<close>

theorem self_move_counterexample:
  "Reporter (demo_store 0) = this_reporter
   \<and> Reporter (FrontendStatsTracer_move_assign 0 0 demo_store 0) = nullptr
   \<and> FrontendStatsEvents
       (FrontendStatsTracer_dtor demo_defs (FrontendStatsTracer_move_assign 0 0 demo_store 0)
          (demo_time 16) (demo_running True None)) = []
   \<and> FrontendStatsEvents
       (saveAnyFrontendStatsEvents demo_defs (demo_store 0) False (demo_time 16)
          (demo_running True None)) \<noteq> []"
proof -
  have src: "demo_store 0 = demo_tracer"
    by (simp add: demo_store_def)
  have null: "Reporter (FrontendStatsTracer_move_assign 0 0 demo_store 0) = nullptr"
    by (rule move_assign_source)
  have live: "Reporter (demo_store 0) = this_reporter"
    by (simp add: src demo_tracer_def)
  have released: "FrontendStatsEvents
       (FrontendStatsTracer_dtor demo_defs (FrontendStatsTracer_move_assign 0 0 demo_store 0)
          (demo_time 16) (demo_running True None)) = []"
    by (simp add: tracer_dtor_inert [OF null] demo_running_fields)
  have flush: "FrontendStatsEvents
       (saveAnyFrontendStatsEvents demo_defs (demo_store 0) False (demo_time 16)
          (demo_running True None)) \<noteq> []"
    unfolding src demo_exit_flush by simp
  from live null released flush show ?thesis
    by simp
qed

subsection \<open>The exit status\<close>

lemma ctor_exit_status:
  "\<not> currentProcessExitStatusSet
       (UnifiedStatsReporter_ctor ProgramName AuxName Directory SM CSM TraceEvents now c1 c2)"
  "currentProcessExitStatus
       (UnifiedStatsReporter_ctor ProgramName AuxName Directory SM CSM TraceEvents now c1 c2)
     = EXIT_FAILURE"
  by (simp_all add: UnifiedStatsReporter_ctor_def)

text \<open>
  C5, as amended. On a reporter whose status is not yet set, one call of the setter
  records the code and marks the status as set. In a build with assertions (without
  \<open>NDEBUG\<close>) a second call fails with \<open>DoubleExitStatus\<close>.
\<close>

theorem exit_status_set_once:
  assumes "\<not> currentProcessExitStatusSet r"
  shows "noteCurrentProcessExitStatus cfg status r
           = Inr (r\<lparr>currentProcessExitStatusSet := True, currentProcessExitStatus := status\<rparr>)
       \<and> (\<not> NDEBUG cfg \<longrightarrow> note_twice cfg status status' r = Inl DoubleExitStatus)"
  using assms by (simp add: noteCurrentProcessExitStatus_def note_twice_def)

theorem exit_status_set_once_witness:
  "noteCurrentProcessExitStatus debug_build 1 (demo_reporter False None)
     = Inr ((demo_reporter False None)
              \<lparr>currentProcessExitStatusSet := True, currentProcessExitStatus := 1\<rparr>)
   \<and> note_twice debug_build 1 0 (demo_reporter False None) = Inl DoubleExitStatus"
proof -
  have unset: "\<not> currentProcessExitStatusSet (demo_reporter False None)"
    by (simp add: demo_reporter_def ctor_exit_status)
  have dbg: "\<not> NDEBUG debug_build"
    by (simp add: debug_build_def)
  show ?thesis
    using exit_status_set_once [OF unset, of debug_build 1 0] dbg by simp
qed

text \<open>
  A counterexample to C5 as stated, in a build with \<open>NDEBUG\<close>: the assertion is compiled
  out, and a second call succeeds and overwrites the status.
\<close>

theorem exit_status_release_counterexample:
  "note_twice release_build 1 0 (demo_reporter False None)
     = Inr ((demo_reporter False None)
              \<lparr>currentProcessExitStatusSet := True, currentProcessExitStatus := 0\<rparr>)
   \<and> note_twice release_build 1 0 (demo_reporter False None) \<noteq> Inl DoubleExitStatus"
  by (simp add: note_twice_def noteCurrentProcessExitStatus_def release_build_def)

subsection \<open>Teardown: the counters\<close>

lemma dtor_reporter:
  "fst (UnifiedStatsReporter_dtor cfg defs h r w) =
     record_NumSourceLinesPerSecond h (record_ChildrenMaxRSS h ((mark_failing r)\<lparr>Timer := None\<rparr>))"
  by (simp add: UnifiedStatsReporter_dtor_def Let_def split: prod.splits option.splits)

lemma mark_failing_fields:
  "StatsFilename (mark_failing r) = StatsFilename r"
  "TraceFilename (mark_failing r) = TraceFilename r"
  "LastTracedFrontendCounters (mark_failing r) = LastTracedFrontendCounters r"
  "SourceMgr (mark_failing r) = SourceMgr r"
  "ClangSourceMgr (mark_failing r) = ClangSourceMgr r"
  "FrontendStatsEvents (mark_failing r) = FrontendStatsEvents r"
  by (simp_all add: mark_failing_def getFrontendCounters_def getDriverCounters_def
        split: option.splits)

lemma record_ChildrenMaxRSS_fields:
  "StatsFilename (record_ChildrenMaxRSS h r) = StatsFilename r"
  "TraceFilename (record_ChildrenMaxRSS h r) = TraceFilename r"
  "LastTracedFrontendCounters (record_ChildrenMaxRSS h r) = LastTracedFrontendCounters r"
  "SourceMgr (record_ChildrenMaxRSS h r) = SourceMgr r"
  "ClangSourceMgr (record_ChildrenMaxRSS h r) = ClangSourceMgr r"
  "FrontendStatsEvents (record_ChildrenMaxRSS h r) = FrontendStatsEvents r"
  "FrontendCounters (record_ChildrenMaxRSS h r) = FrontendCounters r"
  by (simp_all add: record_ChildrenMaxRSS_def getDriverCounters_def split: option.splits)

lemma record_NumSourceLinesPerSecond_fields:
  "StatsFilename (record_NumSourceLinesPerSecond h r) = StatsFilename r"
  "TraceFilename (record_NumSourceLinesPerSecond h r) = TraceFilename r"
  "LastTracedFrontendCounters (record_NumSourceLinesPerSecond h r) = LastTracedFrontendCounters r"
  "SourceMgr (record_NumSourceLinesPerSecond h r) = SourceMgr r"
  "ClangSourceMgr (record_NumSourceLinesPerSecond h r) = ClangSourceMgr r"
  "FrontendStatsEvents (record_NumSourceLinesPerSecond h r) = FrontendStatsEvents r"
  "DriverCounters (record_NumSourceLinesPerSecond h r) = DriverCounters r"
  by (simp_all add: record_NumSourceLinesPerSecond_def getFrontendCounters_def Let_def
        split: option.splits)

lemma dtor_fields:
  "StatsFilename (fst (UnifiedStatsReporter_dtor cfg defs h r w)) = StatsFilename r"
  "TraceFilename (fst (UnifiedStatsReporter_dtor cfg defs h r w)) = TraceFilename r"
  "LastTracedFrontendCounters (fst (UnifiedStatsReporter_dtor cfg defs h r w))
     = LastTracedFrontendCounters r"
  "SourceMgr (fst (UnifiedStatsReporter_dtor cfg defs h r w)) = SourceMgr r"
  "FrontendStatsEvents (fst (UnifiedStatsReporter_dtor cfg defs h r w)) = FrontendStatsEvents r"
  by (simp_all add: dtor_reporter mark_failing_fields record_ChildrenMaxRSS_fields
        record_NumSourceLinesPerSecond_fields)

lemma record_ChildrenMaxRSS_driver:
  "DriverCounters (record_ChildrenMaxRSS h r) =
     (case DriverCounters r of
        None \<Rightarrow> None
      | Some C \<Rightarrow> Some (C(''ChildrenMaxRSS'' := getChildrenMaxResidentSetSize h)))"
  by (simp add: record_ChildrenMaxRSS_def getDriverCounters_def split: option.splits)

lemma record_ChildrenMaxRSS_failures:
  "NumProcessFailures (DriverCounters (record_ChildrenMaxRSS h r))
     = NumProcessFailures (DriverCounters r)"
  by (simp add: record_ChildrenMaxRSS_driver NumProcessFailures_def split: option.splits)

lemma record_NumSourceLinesPerSecond_failures:
  "NumProcessFailures (FrontendCounters (record_NumSourceLinesPerSecond h r))
     = NumProcessFailures (FrontendCounters r)"
  "FrontendCounters (record_NumSourceLinesPerSecond h r) = None \<longleftrightarrow> FrontendCounters r = None"
  by (simp_all add: record_NumSourceLinesPerSecond_def getFrontendCounters_def Let_def
        NumProcessFailures_def split: option.splits)

lemma mark_failing_success:
  "currentProcessExitStatus r = EXIT_SUCCESS \<Longrightarrow> mark_failing r = r"
  by (simp add: mark_failing_def)

lemma mark_failing_frontend:
  assumes "currentProcessExitStatus r \<noteq> EXIT_SUCCESS" and "FrontendCounters r = Some C"
  shows "FrontendCounters (mark_failing r)
           = Some (C(''NumProcessFailures'' := C ''NumProcessFailures'' + 1))"
    and "DriverCounters (mark_failing r) = DriverCounters r"
  using assms by (simp_all add: mark_failing_def getFrontendCounters_def)


lemma mark_failing_count:
  "NumProcessFailures (FrontendCounters (mark_failing r)) =
     (if currentProcessExitStatus r \<noteq> EXIT_SUCCESS \<and> FrontendCounters r \<noteq> None
      then NumProcessFailures (FrontendCounters r) + 1
      else NumProcessFailures (FrontendCounters r))"
  "NumProcessFailures (DriverCounters (mark_failing r)) =
     (if currentProcessExitStatus r \<noteq> EXIT_SUCCESS \<and> FrontendCounters r = None
      then NumProcessFailures (DriverCounters r) + 1
      else NumProcessFailures (DriverCounters r))"
  "FrontendCounters (mark_failing r) = None \<longleftrightarrow> FrontendCounters r = None"
  by (auto simp: mark_failing_def getFrontendCounters_def getDriverCounters_def
        NumProcessFailures_def zero_counters_def split: option.splits)

lemma exit_status_kept:
  "currentProcessExitStatusSet (saveAnyFrontendStatsEvents defs T isEntry Now r)
     = currentProcessExitStatusSet r"
  "currentProcessExitStatus (saveAnyFrontendStatsEvents defs T isEntry Now r)
     = currentProcessExitStatus r"
  "currentProcessExitStatusSet (setFrontendCounters f r) = currentProcessExitStatusSet r"
  "currentProcessExitStatus (setFrontendCounters f r) = currentProcessExitStatus r"
  by (simp_all add: saveAnyFrontendStatsEvents_def setFrontendCounters_def
        getFrontendCounters_def Let_def case_prod_beta split: option.splits)

lemma exit_status_noted:
  "noteCurrentProcessExitStatus cfg status r = Inr r' \<Longrightarrow>
     currentProcessExitStatusSet r' \<and> currentProcessExitStatus r' = status"
  by (auto simp: noteCurrentProcessExitStatus_def split: if_splits)

text \<open>
  C4. The reporter is as the constructor and the setter leave it: while the status is not
  set, it holds the initial failure code. If the setter was never called, or a code other
  than success was noted, the destructor adds exactly one to \<open>NumProcessFailures\<close> of the
  frontend domain when that domain is allocated, and otherwise to that of the driver
  domain, and to no other failure count; if success was noted, neither count changes.
\<close>

theorem teardown_counts_failure:
  assumes "currentProcessExitStatusSet r \<or> currentProcessExitStatus r = EXIT_FAILURE"
  shows "(if currentProcessExitStatusSet r \<and> currentProcessExitStatus r = EXIT_SUCCESS
          then NumProcessFailures (FrontendCounters (fst (UnifiedStatsReporter_dtor cfg defs h r w)))
                 = NumProcessFailures (FrontendCounters r)
             \<and> NumProcessFailures (DriverCounters (fst (UnifiedStatsReporter_dtor cfg defs h r w)))
                 = NumProcessFailures (DriverCounters r)
          else if FrontendCounters r \<noteq> None
          then NumProcessFailures (FrontendCounters (fst (UnifiedStatsReporter_dtor cfg defs h r w)))
                 = NumProcessFailures (FrontendCounters r) + 1
             \<and> NumProcessFailures (DriverCounters (fst (UnifiedStatsReporter_dtor cfg defs h r w)))
                 = NumProcessFailures (DriverCounters r)
          else FrontendCounters (fst (UnifiedStatsReporter_dtor cfg defs h r w)) = None
             \<and> NumProcessFailures (DriverCounters (fst (UnifiedStatsReporter_dtor cfg defs h r w)))
                 = NumProcessFailures (DriverCounters r) + 1)"
proof -
  have failure: "EXIT_FAILURE \<noteq> EXIT_SUCCESS"
    by (simp add: EXIT_FAILURE_def EXIT_SUCCESS_def)
  let ?r2 = "(mark_failing r)\<lparr>Timer := None\<rparr>"
  have front: "NumProcessFailures (FrontendCounters (fst (UnifiedStatsReporter_dtor cfg defs h r w)))
      = NumProcessFailures (FrontendCounters (mark_failing r))"
    by (simp add: dtor_reporter record_NumSourceLinesPerSecond_failures
          record_ChildrenMaxRSS_fields)
  have driver: "NumProcessFailures (DriverCounters (fst (UnifiedStatsReporter_dtor cfg defs h r w)))
      = NumProcessFailures (DriverCounters (mark_failing r))"
    by (simp add: dtor_reporter record_NumSourceLinesPerSecond_fields
          record_ChildrenMaxRSS_failures [of h ?r2, simplified])
  have none: "FrontendCounters (fst (UnifiedStatsReporter_dtor cfg defs h r w)) = None
      \<longleftrightarrow> FrontendCounters r = None"
    by (simp add: dtor_reporter record_NumSourceLinesPerSecond_failures
          record_ChildrenMaxRSS_fields mark_failing_count)
  from assms failure show ?thesis
    unfolding front driver none mark_failing_count by auto
qed


lemma demo_running_status:
  "\<not> currentProcessExitStatusSet (demo_running T SM)"
  "currentProcessExitStatus (demo_running T SM) = EXIT_FAILURE"
  "DriverCounters (demo_running T SM) = None"
  by (simp_all add: demo_running_def demo_reporter_def UnifiedStatsReporter_ctor_def
        setFrontendCounters_def getFrontendCounters_def)

theorem teardown_counts_failure_witness:
  "NumProcessFailures
     (FrontendCounters
        (fst (UnifiedStatsReporter_dtor release_build demo_defs demo_host (demo_running True None)
                demo_world))) = 1
   \<and> NumProcessFailures
     (DriverCounters
        (fst (UnifiedStatsReporter_dtor release_build demo_defs demo_host (demo_running True None)
                demo_world))) = 0"
proof -
  have inv: "currentProcessExitStatusSet (demo_running True None)
      \<or> currentProcessExitStatus (demo_running True None) = EXIT_FAILURE"
    by (simp add: demo_running_status)
  show ?thesis
    using teardown_counts_failure [OF inv, of release_build demo_defs demo_host demo_world]
    by (simp add: demo_running_status demo_running_fields NumProcessFailures_def
          demo_counters_def zero_counters_def)
qed

subsection \<open>Teardown: the files\<close>

lemma raw_fd_ostream_fields:
  "fst (raw_fd_ostream h p w) = open_fails h p"
  "opens (snd (raw_fd_ostream h p w)) = opens w @ [p]"
  "errs (snd (raw_fd_ostream h p w)) = errs w"
  "llvm_statistics (snd (raw_fd_ostream h p w)) = llvm_statistics w"
  "q \<noteq> p \<Longrightarrow> files (snd (raw_fd_ostream h p w)) q = files w q"
  "open_fails h p \<Longrightarrow> files (snd (raw_fd_ostream h p w)) = files w"
  "\<not> open_fails h p \<Longrightarrow>
     files (snd (raw_fd_ostream h p w)) p = Some (case files w p of None \<Rightarrow> [] | Some old \<Rightarrow> old)"
  by (simp_all add: raw_fd_ostream_def)

lemma stream_write_fields:
  "opens (stream_write p t w) = opens w"
  "errs (stream_write p t w) = errs w"
  "llvm_statistics (stream_write p t w) = llvm_statistics w"
  "q \<noteq> p \<Longrightarrow> files (stream_write p t w) q = files w q"
  "files (stream_write p t w) p = Some ((case files w p of None \<Rightarrow> [] | Some old \<Rightarrow> old) @ t)"
  by (simp_all add: stream_write_def)

lemma publish_fold:
  "fold (\<lambda>x w. w\<lparr>llvm_statistics := llvm_statistics w @ [g x]\<rparr>) xs w
     = w\<lparr>llvm_statistics := llvm_statistics w @ map g xs\<rparr>"
  by (induction xs arbitrary: w) simp_all

lemma publish_fields:
  "opens (publishAlwaysOnStatsToLLVM defs r w) = opens w"
  "errs (publishAlwaysOnStatsToLLVM defs r w) = errs w"
  "files (publishAlwaysOnStatsToLLVM defs r w) = files w"
  "llvm_statistics (publishAlwaysOnStatsToLLVM defs r w) =
     llvm_statistics w
       @ (case FrontendCounters r of
            None \<Rightarrow> []
          | Some C \<Rightarrow> map (\<lambda>(TY, NAME). (TY, NAME, C NAME)) (FRONTEND_STATISTIC defs))
       @ (case DriverCounters r of
            None \<Rightarrow> []
          | Some C \<Rightarrow> map (\<lambda>NAME. (''Driver'', NAME, C NAME)) (DRIVER_STATISTIC defs))"
proof -
  have fold_f: "fold (\<lambda>(TY, NAME) w. w\<lparr>llvm_statistics := llvm_statistics w @ [(TY, NAME, C NAME)]\<rparr>) xs w
      = w\<lparr>llvm_statistics := llvm_statistics w @ map (\<lambda>(TY, NAME). (TY, NAME, C NAME)) xs\<rparr>"
    for C :: "string \<Rightarrow> 'a word" and xs and w :: "'a word world"
    by (induction xs arbitrary: w) auto
  show "opens (publishAlwaysOnStatsToLLVM defs r w) = opens w"
    "errs (publishAlwaysOnStatsToLLVM defs r w) = errs w"
    "files (publishAlwaysOnStatsToLLVM defs r w) = files w"
    "llvm_statistics (publishAlwaysOnStatsToLLVM defs r w) =
     llvm_statistics w
       @ (case FrontendCounters r of
            None \<Rightarrow> []
          | Some C \<Rightarrow> map (\<lambda>(TY, NAME). (TY, NAME, C NAME)) (FRONTEND_STATISTIC defs))
       @ (case DriverCounters r of
            None \<Rightarrow> []
          | Some C \<Rightarrow> map (\<lambda>NAME. (''Driver'', NAME, C NAME)) (DRIVER_STATISTIC defs))"
    by (simp_all add: publishAlwaysOnStatsToLLVM_def Let_def fold_f publish_fold
          split: option.splits)
qed

lemma print_stats_fields:
  "opens (print_stats cfg defs h r w) = opens w"
  "errs (print_stats cfg defs h r w) = errs w"
  "q \<noteq> StatsFilename r \<Longrightarrow> files (print_stats cfg defs h r w) q = files w q"
  by (simp_all add: print_stats_def Let_def stream_write_fields publish_fields)



lemma trace_rows_fold:
  "opens (fold (\<lambda>E. stream_write p (g E)) evs w) = opens w"
  "errs (fold (\<lambda>E. stream_write p (g E)) evs w) = errs w"
  "llvm_statistics (fold (\<lambda>E. stream_write p (g E)) evs w) = llvm_statistics w"
  "q \<noteq> p \<Longrightarrow> files (fold (\<lambda>E. stream_write p (g E)) evs w) q = files w q"
  "files w p = Some t \<Longrightarrow>
     files (fold (\<lambda>E. stream_write p (g E)) evs w) p = Some (t @ concat (map g evs))"
  by (induction evs arbitrary: w t) (simp_all add: stream_write_fields)

lemma print_trace_fields:
  "opens (print_trace h SM r w) = opens w"
  "errs (print_trace h SM r w) = errs w"
  "llvm_statistics (print_trace h SM r w) = llvm_statistics w"
  "q \<noteq> TraceFilename r \<Longrightarrow> files (print_trace h SM r w) q = files w q"
  "files (print_trace h SM r w) (TraceFilename r)
     = Some ((case files w (TraceFilename r) of None \<Rightarrow> [] | Some old \<Rightarrow> old) @ trace_header
               @ concat (map (trace_row h SM (ClangSourceMgr r)) (FrontendStatsEvents r)))"
  by (simp_all add: print_trace_def trace_rows_fold stream_write_fields)


lemma dtor_world_stats_fail:
  assumes "open_fails h (StatsFilename r)"
  shows "snd (UnifiedStatsReporter_dtor cfg defs h r w) =
     (snd (raw_fd_ostream h (StatsFilename r) w))
       \<lparr>errs := errs w @ ''Error opening -stats-output-dir file '' @ quote @ TraceFilename r
                 @ quote @ '' for writing'' @ newline\<rparr>"
  using assms
  by (simp add: UnifiedStatsReporter_dtor_def Let_def case_prod_beta raw_fd_ostream_fields
        mark_failing_fields record_ChildrenMaxRSS_fields record_NumSourceLinesPerSecond_fields)

lemma dtor_world_no_trace:
  assumes "\<not> open_fails h (StatsFilename r)"
      and "LastTracedFrontendCounters r = None \<or> SourceMgr r = None"
  shows "snd (UnifiedStatsReporter_dtor cfg defs h r w) =
     print_stats cfg defs h (fst (UnifiedStatsReporter_dtor cfg defs h r w))
       (snd (raw_fd_ostream h (StatsFilename r) w))"
  using assms
  by (auto simp: dtor_reporter UnifiedStatsReporter_dtor_def Let_def case_prod_beta
        raw_fd_ostream_fields mark_failing_fields record_ChildrenMaxRSS_fields
        record_NumSourceLinesPerSecond_fields split: option.splits)


lemma dtor_world_trace:
  assumes "\<not> open_fails h (StatsFilename r)"
      and "LastTracedFrontendCounters r = Some Last" and "SourceMgr r = Some SM"
      and "\<not> open_fails h (TraceFilename r)"
  shows "snd (UnifiedStatsReporter_dtor cfg defs h r w) =
     print_trace h SM (fst (UnifiedStatsReporter_dtor cfg defs h r w))
       (snd (raw_fd_ostream h (TraceFilename r)
          (print_stats cfg defs h (fst (UnifiedStatsReporter_dtor cfg defs h r w))
             (snd (raw_fd_ostream h (StatsFilename r) w)))))"
  using assms
  by (simp add: dtor_reporter UnifiedStatsReporter_dtor_def Let_def case_prod_beta
        raw_fd_ostream_fields mark_failing_fields record_ChildrenMaxRSS_fields
        record_NumSourceLinesPerSecond_fields)

text \<open>
  C9. With tracing enabled and a null source manager, the destructor opens the stats path
  and no other, and leaves every other file as it was; when the stats file opens, the
  world it leaves is the one the snapshot step leaves. So no trace file is opened or
  written and no row is emitted, whatever the event list holds.
\<close>

theorem no_trace_without_SourceMgr:
  assumes "LastTracedFrontendCounters r \<noteq> None" and "SourceMgr r = None"
  shows "opens (snd (UnifiedStatsReporter_dtor cfg defs h r w)) = opens w @ [StatsFilename r]
       \<and> (\<forall>p. p \<noteq> StatsFilename r \<longrightarrow>
              files (snd (UnifiedStatsReporter_dtor cfg defs h r w)) p = files w p)
       \<and> (\<not> open_fails h (StatsFilename r) \<longrightarrow>
              snd (UnifiedStatsReporter_dtor cfg defs h r w) =
                print_stats cfg defs h (fst (UnifiedStatsReporter_dtor cfg defs h r w))
                  (snd (raw_fd_ostream h (StatsFilename r) w)))"
proof (cases "open_fails h (StatsFilename r)")
  case True
  then show ?thesis
    by (simp add: dtor_world_stats_fail raw_fd_ostream_fields)
next
  case False
  have name: "StatsFilename (fst (UnifiedStatsReporter_dtor cfg defs h r w)) = StatsFilename r"
    by (rule dtor_fields)
  from False assms(2) show ?thesis
    by (simp add: dtor_world_no_trace print_stats_fields raw_fd_ostream_fields name)
qed


lemma demo_decimals:
  "decimal (Suc 0) = ''1''" "decimal 2 = ''2''" "decimal 3 = ''3''" "decimal 4 = ''4''"
  by code_simp+

lemma demo_traced_fields:
  "StatsFilename (demo_traced SM) = ''out/stats-1-swiftc-m-all-2.json''"
  "TraceFilename (demo_traced SM) = ''out/trace-3-swiftc-m-all-4.csv''"
  "SourceMgr (demo_traced SM) = SM"
  "LastTracedFrontendCounters (demo_traced SM) \<noteq> None"
  "map (\<lambda>x. (EventName x, IsEntry x, CounterDelta x)) (FrontendStatsEvents (demo_traced SM))
     = [(''parse'', True, 100), (''parse'', False, 150)]"
  by (simp_all add: demo_traced_def demo_scope_def traced_scope_def demo_body_def
        getStatsTracer_def FrontendStatsTracer_ctor_def FrontendStatsTracer_dtor_def
        saveAnyFrontendStatsEvents_def trace_counter_def demo_simps Let_def
        path_append_def makeStatsFileName_def makeTraceFileName_def makeFileName_def
        demo_decimals)

theorem no_trace_without_SourceMgr_witness:
  "opens (snd (UnifiedStatsReporter_dtor release_build demo_defs demo_host (demo_traced None) demo_world))
     = [''out/stats-1-swiftc-m-all-2.json'']
   \<and> files (snd (UnifiedStatsReporter_dtor release_build demo_defs demo_host (demo_traced None) demo_world))
       ''out/trace-3-swiftc-m-all-4.csv'' = None
   \<and> length (FrontendStatsEvents (demo_traced None)) = 2"
proof -
  have len: "length (FrontendStatsEvents (demo_traced None)) = 2"
    using arg_cong [OF demo_traced_fields(5) [of None], of length] by simp
  show ?thesis
    using no_trace_without_SourceMgr
      [OF demo_traced_fields(4) demo_traced_fields(3), of release_build demo_defs demo_host demo_world]
    by (simp add: demo_traced_fields len demo_world_def)
qed


text \<open>
  C1. The destructor at a reporter with tracing enabled, a source manager and two recorded
  events, on a host where the stats file cannot be opened: the diagnostic carries the path
  of the trace file, not that of the stats file; the stats path is the only path opened
  and the trace file is not created. On the host where every file opens, the same reporter
  opens both paths.
\<close>

theorem stats_open_failure_at_demo:
  "errs (snd (UnifiedStatsReporter_dtor release_build demo_defs demo_host_stats_fail
                (demo_traced (Some (SourceManager 0))) demo_world))
     = ''Error opening -stats-output-dir file '' @ quote @ ''out/trace-3-swiftc-m-all-4.csv''
         @ quote @ '' for writing'' @ newline
   \<and> opens (snd (UnifiedStatsReporter_dtor release_build demo_defs demo_host_stats_fail
                (demo_traced (Some (SourceManager 0))) demo_world))
     = [''out/stats-1-swiftc-m-all-2.json'']
   \<and> files (snd (UnifiedStatsReporter_dtor release_build demo_defs demo_host_stats_fail
                (demo_traced (Some (SourceManager 0))) demo_world))
       ''out/trace-3-swiftc-m-all-4.csv'' = None
   \<and> opens (snd (UnifiedStatsReporter_dtor release_build demo_defs demo_host
                (demo_traced (Some (SourceManager 0))) demo_world))
     = [''out/stats-1-swiftc-m-all-2.json'', ''out/trace-3-swiftc-m-all-4.csv'']"
proof -
  let ?r = "demo_traced (Some (SourceManager 0))"
  have fails: "open_fails demo_host_stats_fail (StatsFilename ?r)"
    by (simp add: demo_host_stats_fail_def demo_traced_fields)
  have ok: "\<not> open_fails demo_host (StatsFilename ?r)" "\<not> open_fails demo_host (TraceFilename ?r)"
    by (simp_all add: demo_host_def)
  obtain Last where last: "LastTracedFrontendCounters ?r = Some Last"
    using demo_traced_fields(4) [of "Some (SourceManager 0)"] by blast
  have failing: "snd (UnifiedStatsReporter_dtor release_build demo_defs demo_host_stats_fail ?r demo_world)
      = (snd (raw_fd_ostream demo_host_stats_fail (StatsFilename ?r) demo_world))
          \<lparr>errs := errs demo_world @ ''Error opening -stats-output-dir file '' @ quote
                    @ TraceFilename ?r @ quote @ '' for writing'' @ newline\<rparr>"
    by (rule dtor_world_stats_fail [OF fails])
  have both: "opens (snd (UnifiedStatsReporter_dtor release_build demo_defs demo_host ?r demo_world))
      = [''out/stats-1-swiftc-m-all-2.json'', ''out/trace-3-swiftc-m-all-4.csv'']"
    unfolding dtor_world_trace [OF ok(1) last demo_traced_fields(3) ok(2)]
    by (simp add: print_trace_fields raw_fd_ostream_fields print_stats_fields demo_traced_fields
          demo_world_def)
  show ?thesis
    unfolding failing both
    by (simp add: raw_fd_ostream_fields fails demo_traced_fields demo_world_def)
qed

subsection \<open>Teardown: the driver domain of a run that touched no counter\<close>











end
